theory Spec2Isabelle
  imports Complex_Main "HOL-Library.Word" "HOL-Library.Log_Nat"
begin

unbundle bit_operations_syntax

section \<open>Python values and failures\<close>

text \<open>
  A Python \<open>bytes\<close> object is a list of 8-bit words. Everything that raises in the
  source is a value \<open>Inl e\<close> of the result type; slicing never raises and is total.
  Decoded text (\<open>str\<close>) is a list of Unicode code points; the ASCII strings the
  source builds itself (hex dumps, MAC addresses, table names) are \<open>string\<close>.
\<close>

type_synonym byte = "8 word"
type_synonym ustring = "nat list"

datatype py_error = IndexError | StructError | OverflowError

definition bindE :: "py_error + 'a \<Rightarrow> ('a \<Rightarrow> py_error + 'b) \<Rightarrow> py_error + 'b" where
  "bindE m f = (case m of Inl e \<Rightarrow> Inl e | Inr x \<Rightarrow> f x)"

text \<open>\<open>xs[i]\<close>: a negative index counts from the end, an index out of range raises.\<close>

definition idx :: "'a list \<Rightarrow> int \<Rightarrow> py_error + 'a" where
  "idx xs i =
     (let j = (if i < 0 then int (length xs) + i else i)
      in if 0 \<le> j \<and> j < int (length xs) then Inr (xs ! nat j) else Inl IndexError)"

text \<open>\<open>xs[a:b]\<close> for bounds \<open>0 \<le> a\<close>, \<open>0 \<le> b\<close>: clamped to the list, empty when \<open>b \<le> a\<close>.\<close>

definition py_slice :: "'a list \<Rightarrow> nat \<Rightarrow> nat \<Rightarrow> 'a list" where
  "py_slice xs a b = take (b - a) (drop a xs)"

text \<open>\<open>struct.unpack('<H' | '<I' | '<Q', bs)[0]\<close>: little-endian unsigned, and
  \<open>struct.error\<close> unless \<open>bs\<close> has exactly the size of the format.\<close>

fun le_value :: "byte list \<Rightarrow> nat" where
  "le_value [] = 0"
| "le_value (b # bs) = unat b + 256 * le_value bs"

definition unpack_le :: "nat \<Rightarrow> byte list \<Rightarrow> py_error + nat" where
  "unpack_le n bs = (if length bs = n then Inr (le_value bs) else Inl StructError)"

text \<open>\<open>struct.pack\<close> of one unsigned little-endian field of \<open>n\<close> bytes:
  \<open>struct.error\<close> when the value does not fit.\<close>

fun le_bytes :: "nat \<Rightarrow> nat \<Rightarrow> byte list" where
  "le_bytes 0 v = []"
| "le_bytes (Suc n) v = of_nat (v mod 256) # le_bytes n (v div 256)"

definition pack_le :: "nat \<Rightarrow> int \<Rightarrow> py_error + byte list" where
  "pack_le n v = (if 0 \<le> v \<and> v < 2 ^ (8 * n) then Inr (le_bytes n (nat v)) else Inl StructError)"

subsection \<open>Hexadecimal formatting\<close>

definition hex_lower :: "nat \<Rightarrow> char" where
  "hex_lower d = ''0123456789abcdef'' ! d"

definition hex_upper :: "nat \<Rightarrow> char" where
  "hex_upper d = ''0123456789ABCDEF'' ! d"

text \<open>\<open>bytes.hex()\<close>: two lower-case digits per byte.\<close>

definition bytes_hex :: "byte list \<Rightarrow> string" where
  "bytes_hex bs = concat (map (\<lambda>b. [hex_lower (unat b div 16), hex_lower (unat b mod 16)]) bs)"

text \<open>\<open>f"{n:0wX}"\<close> for \<open>n \<ge> 0\<close>: upper-case digits, padded with zeros to width \<open>w\<close>,
  longer when the number needs more digits.\<close>

function digits_upper :: "nat \<Rightarrow> string" where
  "digits_upper n = (if n < 16 then [hex_upper n] else digits_upper (n div 16) @ [hex_upper (n mod 16)])"
  by pat_completeness auto
termination
  by (relation "measure id") auto

definition format_X :: "nat \<Rightarrow> nat \<Rightarrow> string" where
  "format_X w n = replicate (w - length (digits_upper n)) (CHR ''0'') @ digits_upper n"

section \<open>Constants of the capture format\<close>

definition RECORD_SIZE :: nat where
  "RECORD_SIZE = 271"

definition HEADER_SIZE :: nat where
  "HEADER_SIZE = 16"

definition BLE_ADV_ACCESS_ADDR :: "byte list" where
  "BLE_ADV_ACCESS_ADDR = [0xd6, 0xbe, 0x89, 0x8e]"

section \<open>Record reader\<close>

text \<open>
  The three readers (\<open>parse_psd_file\<close>, \<open>parse_psd_packets\<close>,
  \<open>convert_psd_to_pcap_with_ppi\<close>) take the payload of the record at \<open>offset\<close> the
  same way:
  \<^verbatim>\<open>payload_len = data[offset+15]
payload = data[offset+16:offset+16+payload_len]\<close>
\<close>

definition extract_payload :: "byte list \<Rightarrow> nat \<Rightarrow> py_error + byte list" where
  "extract_payload data offset =
     bindE (idx data (int offset + 15)) (\<lambda>payload_len.
       Inr (py_slice data (offset + 16) (offset + 16 + unat payload_len)))"

section \<open>Floating point\<close>

text \<open>
  A Python \<open>float\<close> is modelled by the rational number it denotes. Converting an
  \<open>int\<close> to \<open>float\<close> (as \<open>timestamp / 32.0\<close> does with its left operand) rounds
  to 53 significant bits, ties to even, and raises \<open>OverflowError\<close> when the rounded
  value leaves the range of a double. Dividing by 32 and multiplying a 16-bit value by
  1.25 are exact on doubles. The other float operations of the converter (subtraction,
  division by \<open>1_000_000\<close>, \<open>%\<close>) are modelled by the exact rational operations,
  which is what they compute whenever the double operation does not round.
\<close>

definition round_to_double :: "nat \<Rightarrow> nat" where
  "round_to_double n =
     (let b = floorlog 2 n in
      if b \<le> 53 then n
      else let e = b - 53; q = n div 2 ^ e; r = n mod 2 ^ e; h = 2 ^ (e - 1)
           in (if h < r \<or> (r = h \<and> odd q) then q + 1 else q) * 2 ^ e)"

definition py_float_of_int :: "int \<Rightarrow> py_error + rat" where
  "py_float_of_int i =
     (let m = round_to_double (nat \<bar>i\<bar>)
      in if 2 ^ 1024 \<le> m then Inl OverflowError
         else Inr (if i < 0 then - of_nat m else of_nat m))"

text \<open>\<open>int(x)\<close> of a float truncates towards zero; \<open>x % m\<close> has the sign of \<open>m\<close>.\<close>

definition py_int_of_float :: "rat \<Rightarrow> int" where
  "py_int_of_float x = (if 0 \<le> x then \<lfloor>x\<rfloor> else \<lceil>x\<rceil>)"

definition py_float_mod :: "rat \<Rightarrow> rat \<Rightarrow> rat" where
  "py_float_mod x m = x - m * of_int \<lfloor>x / m\<rfloor>"

section \<open>Name tables\<close>

definition get_pdu_type_name :: "nat \<Rightarrow> string" where
  "get_pdu_type_name pdu_type =
     (case map_of
        [(0x00, ''ADV_IND''),
         (0x01, ''ADV_DIRECT_IND''),
         (0x02, ''ADV_NONCONN_IND''),
         (0x03, ''SCAN_REQ''),
         (0x04, ''SCAN_RSP''),
         (0x05, ''CONNECT_IND''),
         (0x06, ''ADV_SCAN_IND'')] pdu_type of
        Some name \<Rightarrow> name
      | None \<Rightarrow> ''UNKNOWN_0x'' @ format_X 2 pdu_type)"

definition get_ad_type_name :: "nat \<Rightarrow> string" where
  "get_ad_type_name ad_type =
     (case map_of
        [(0x01, ''Flags''),
         (0x02, ''Incomplete 16-bit UUIDs''),
         (0x03, ''Complete 16-bit UUIDs''),
         (0x06, ''Incomplete 128-bit UUIDs''),
         (0x07, ''Complete 128-bit UUIDs''),
         (0x08, ''Shortened Local Name''),
         (0x09, ''Complete Local Name''),
         (0x0A, ''TX Power Level''),
         (0x16, ''Service Data (16-bit)''),
         (0xFF, ''Manufacturer Specific'')] ad_type of
        Some name \<Rightarrow> name
      | None \<Rightarrow> ''Type_0x'' @ format_X 2 ad_type)"

definition get_company_name :: "nat \<Rightarrow> string" where
  "get_company_name company_id =
     (case map_of
        [(0x004C, ''Apple''),
         (0x04D8, ''Fujifilm''),
         (0x0006, ''Microsoft''),
         (0x0059, ''Nordic Semiconductor''),
         (0x00E0, ''Google''),
         (0x0075, ''Samsung''),
         (0x000D, ''Texas Instruments''),
         (0x0046, ''Mediatek''),
         (0x02E0, ''Fitbit'')] company_id of
        Some name \<Rightarrow> name
      | None \<Rightarrow> ''Company_0x'' @ format_X 4 company_id)"

text \<open>\<open>':'.join(f'{x:02X}' for x in reversed(b))\<close>\<close>

fun join_colon :: "string list \<Rightarrow> string" where
  "join_colon [] = []"
| "join_colon [s] = s"
| "join_colon (s # t # ss) = s @ CHR '':'' # join_colon (t # ss)"

definition bytes_to_mac :: "byte list \<Rightarrow> string" where
  "bytes_to_mac b = join_colon (map (\<lambda>x. format_X 2 (unat x)) (rev b))"

section \<open>AD-structure parser\<close>

text \<open>
  One element of the \<open>structures\<close> list is a dictionary with the keys \<open>type\<close>,
  \<open>type_name\<close>, \<open>data_hex\<close>, \<open>length\<close> and the keys of at most one branch of the
  \<open>if\<close>/\<open>elif\<close> chain: \<open>flags\<close>; \<open>name\<close>; \<open>tx_power\<close>; \<open>company_id\<close>,
  \<open>company_name\<close>, \<open>mfg_data\<close>; \<open>uuids\<close>. The branch keys are the constructors
  of \<open>ad_decoded\<close>. The \<open>info\<close> dictionary has at most six keys; a key that is
  absent is \<open>None\<close>.
\<close>

datatype ad_decoded =
    NoDecode
  | Flags "string list"
  | Name ustring
  | TxPower int
  | Manufacturer nat string string
  | Uuids "string list"

record ad_structure =
  ad_type :: byte
  type_name :: string
  data_hex :: string
  ad_length :: int
  decoded :: ad_decoded

record info_dict =
  info_flags :: "string list option"
  info_device_name :: "ustring option"
  info_tx_power :: "int option"
  info_manufacturer :: "string option"
  info_manufacturer_data :: "string option"
  info_service_uuids :: "string list option"

definition empty_info :: info_dict where
  "empty_info = \<lparr>info_flags = None, info_device_name = None, info_tx_power = None,
     info_manufacturer = None, info_manufacturer_data = None, info_service_uuids = None\<rparr>"

definition flag_names :: "byte \<Rightarrow> string list" where
  "flag_names f =
     (if f AND 0x01 \<noteq> 0 then [''LE Limited Discoverable''] else []) @
     (if f AND 0x02 \<noteq> 0 then [''LE General Discoverable''] else []) @
     (if f AND 0x04 \<noteq> 0 then [''BR/EDR Not Supported''] else []) @
     (if f AND 0x08 \<noteq> 0 then [''LE+BR/EDR Controller''] else []) @
     (if f AND 0x10 \<noteq> 0 then [''LE+BR/EDR Host''] else [])"

text \<open>\<open>s.rstrip('\x00')\<close>\<close>

definition rstrip_nul :: "ustring \<Rightarrow> ustring" where
  "rstrip_nul s = rev (dropWhile (\<lambda>c. c = 0) (rev s))"

text \<open>\<open>tx - 256 if tx > 127 else tx\<close>, on the value of a byte.\<close>

definition signed_byte :: "byte \<Rightarrow> int" where
  "signed_byte b = (if 127 < unat b then int (unat b) - 256 else int (unat b))"

text \<open>The loop \<open>for j in range(0, len(ad_data), 2)\<close> over the 16-bit UUIDs.\<close>

fun uuids_loop :: "byte list \<Rightarrow> nat list \<Rightarrow> string list \<Rightarrow> py_error + string list" where
  "uuids_loop ad_data [] uuids = Inr uuids"
| "uuids_loop ad_data (j # js) uuids =
     (if j + 2 \<le> length ad_data then
        (case unpack_le 2 (py_slice ad_data j (j + 2)) of
           Inl e \<Rightarrow> Inl e
         | Inr uuid \<Rightarrow> uuids_loop ad_data js (uuids @ [''0x'' @ format_X 4 uuid]))
      else uuids_loop ad_data js uuids)"

text \<open>
  The branch on the AD type in the loop body. \<open>decode\<close> is
  \<open>bytes.decode('utf-8', errors='replace')\<close> of the Python library, a parameter of the
  model; with \<open>errors='replace'\<close> it returns for every input, so the \<open>except\<close>
  branch around it is never taken.
\<close>

definition decode_ad ::
  "(byte list \<Rightarrow> ustring) \<Rightarrow> byte \<Rightarrow> byte list \<Rightarrow> info_dict \<Rightarrow> py_error + ad_decoded \<times> info_dict" where
  "decode_ad decode t ad_data info =
     (if t = 0x01 \<and> ad_data \<noteq> [] then
        bindE (idx ad_data 0) (\<lambda>f.
          Inr (Flags (flag_names f), info\<lparr>info_flags := Some (flag_names f)\<rparr>))
      else if (t = 0x08 \<or> t = 0x09) \<and> ad_data \<noteq> [] then
        (let name = rstrip_nul (decode ad_data)
         in Inr (Name name, info\<lparr>info_device_name := Some name\<rparr>))
      else if t = 0x0A \<and> ad_data \<noteq> [] then
        bindE (idx ad_data 0) (\<lambda>tx.
          Inr (TxPower (signed_byte tx), info\<lparr>info_tx_power := Some (signed_byte tx)\<rparr>))
      else if t = 0xFF \<and> 2 \<le> length ad_data then
        bindE (unpack_le 2 (py_slice ad_data 0 2)) (\<lambda>company_id.
          Inr (Manufacturer company_id (get_company_name company_id) (bytes_hex (drop 2 ad_data)),
               info\<lparr>info_manufacturer := Some (get_company_name company_id),
                    info_manufacturer_data := Some (bytes_hex (drop 2 ad_data))\<rparr>))
      else if t = 0x02 \<or> t = 0x03 then
        bindE (uuids_loop ad_data (filter even [0..<length ad_data]) []) (\<lambda>uuids.
          Inr (Uuids uuids,
               info\<lparr>info_service_uuids :=
                      Some ((case info_service_uuids info of None \<Rightarrow> [] | Some old \<Rightarrow> old) @ uuids)\<rparr>))
      else Inr (NoDecode, info))"

text \<open>The \<open>while\<close> loop of \<open>parse_ad_structures\<close>, with its three variables.\<close>

function ad_loop ::
  "(byte list \<Rightarrow> ustring) \<Rightarrow> byte list \<Rightarrow> nat \<Rightarrow> ad_structure list \<Rightarrow> info_dict
     \<Rightarrow> py_error + ad_structure list \<times> info_dict" where
  "ad_loop decode data i structures info =
     (if int i < int (length data) - 1 then
        (case idx data (int i) of
           Inl e \<Rightarrow> Inl e
         | Inr len_byte \<Rightarrow>
             (if unat len_byte = 0 \<or> length data \<le> i + unat len_byte then Inr (structures, info)
              else
                (case idx data (int i + 1) of
                   Inl e \<Rightarrow> Inl e
                 | Inr t \<Rightarrow>
                     (case decode_ad decode t (py_slice data (i + 2) (i + 1 + unat len_byte)) info of
                        Inl e \<Rightarrow> Inl e
                      | Inr (d, info') \<Rightarrow>
                          ad_loop decode data (i + unat len_byte + 1)
                            (structures @
                               [\<lparr>ad_type = t,
                                 type_name = get_ad_type_name (unat t),
                                 data_hex = bytes_hex (py_slice data (i + 2) (i + 1 + unat len_byte)),
                                 ad_length = int (unat len_byte) - 1,
                                 decoded = d\<rparr>])
                            info'))))
      else Inr (structures, info))"
  by pat_completeness auto
termination
  by (relation "measure (\<lambda>(decode, data, i, structures, info). length data - i)") auto

definition parse_ad_structures ::
  "(byte list \<Rightarrow> ustring) \<Rightarrow> byte list \<Rightarrow> py_error + ad_structure list \<times> info_dict" where
  "parse_ad_structures decode data = ad_loop decode data 0 [] empty_info"

section \<open>PDU decoder\<close>

record ble_packet =
  record_num :: int
  packet_num :: int
  timestamp :: int
  timestamp_us :: rat
  payload_len :: nat
  raw_payload :: "byte list"
  access_address :: string
  pdu_type :: nat
  pdu_type_name :: string
  pdu_length :: nat
  tx_addr_type :: string
  adv_address :: string
  scanner_address :: string
  initiator_address :: string
  target_address :: string
  device_name :: ustring
  manufacturer :: string
  manufacturer_data :: string
  tx_power :: "int option"
  flags :: "string list"
  service_uuids :: "string list"
  ad_structures :: "ad_structure list"
  rssi :: int
  channel :: nat
  crc_ok :: bool
  conn_access_addr :: string
  conn_crc_init :: string
  conn_interval :: rat
  conn_latency :: nat
  conn_timeout :: rat

text \<open>The constructor of the dataclass: six arguments, every other field at its default.\<close>

definition BLEPacket :: "int \<Rightarrow> int \<Rightarrow> int \<Rightarrow> rat \<Rightarrow> nat \<Rightarrow> byte list \<Rightarrow> ble_packet" where
  "BLEPacket rn pn ts ts_us plen raw =
     \<lparr>record_num = rn, packet_num = pn, timestamp = ts, timestamp_us = ts_us,
      payload_len = plen, raw_payload = raw,
      access_address = '''', pdu_type = 0, pdu_type_name = '''', pdu_length = 0,
      tx_addr_type = '''',
      adv_address = '''', scanner_address = '''', initiator_address = '''',
      target_address = '''',
      device_name = [], manufacturer = '''', manufacturer_data = '''', tx_power = None,
      flags = [], service_uuids = [], ad_structures = [],
      rssi = 0, channel = 0, crc_ok = False,
      conn_access_addr = '''', conn_crc_init = '''', conn_interval = 0, conn_latency = 0,
      conn_timeout = 0\<rparr>"

text \<open>\<open>(rssi_raw - 256 if rssi_raw > 127 else rssi_raw) - 73\<close>\<close>

definition rssi_of_raw :: "byte \<Rightarrow> int" where
  "rssi_of_raw rssi_raw =
     (if 127 < unat rssi_raw then int (unat rssi_raw) - 256 else int (unat rssi_raw)) - 73"

text \<open>The PDU header, from \<open>pdu_header = raw[4:6]\<close>.\<close>

definition decode_pdu_header :: "byte list \<Rightarrow> ble_packet \<Rightarrow> py_error + ble_packet" where
  "decode_pdu_header raw pkt =
     (let pdu_header = py_slice raw 4 6 in
      bindE (idx pdu_header 0) (\<lambda>h0.
      bindE (idx pdu_header 1) (\<lambda>h1.
        Inr (pkt\<lparr>pdu_type := unat (h0 AND 0x0F),
                 pdu_type_name := get_pdu_type_name (unat (h0 AND 0x0F)),
                 tx_addr_type := (if drop_bit 6 h0 AND 0x01 \<noteq> 0 then ''Random'' else ''Public''),
                 pdu_length := unat (h1 AND 0x3F)\<rparr>))))"

text \<open>RSSI and channel, from the last two bytes.\<close>

definition decode_status :: "byte list \<Rightarrow> ble_packet \<Rightarrow> py_error + ble_packet" where
  "decode_status raw pkt =
     (if 2 \<le> length raw then
        bindE (idx raw (- 2)) (\<lambda>rssi_raw.
        bindE (idx raw (- 1)) (\<lambda>status.
          Inr (pkt\<lparr>rssi := rssi_of_raw rssi_raw,
                   channel := unat (status AND 0x3F),
                   crc_ok := (status AND 0x80 \<noteq> 0)\<rparr>)))
      else Inr pkt)"

text \<open>\<open>raw[12:-2] if len(raw) > 14 else bytes()\<close>\<close>

definition adv_data_of :: "byte list \<Rightarrow> byte list" where
  "adv_data_of raw = (if 14 < length raw then py_slice raw 12 (length raw - 2) else [])"

text \<open>\<open>info.get(key, default)\<close>\<close>

definition info_get :: "'a option \<Rightarrow> 'a \<Rightarrow> 'a" where
  "info_get v d = (case v of None \<Rightarrow> d | Some x \<Rightarrow> x)"

text \<open>The branch for ADV_IND, ADV_NONCONN_IND and ADV_SCAN_IND.\<close>

definition decode_adv :: "(byte list \<Rightarrow> ustring) \<Rightarrow> byte list \<Rightarrow> ble_packet \<Rightarrow> py_error + ble_packet" where
  "decode_adv decode raw pkt =
     (if 12 \<le> length raw then
        (let pkt = pkt\<lparr>adv_address := bytes_to_mac (py_slice raw 6 12)\<rparr>;
             adv_data = adv_data_of raw
         in if adv_data \<noteq> [] then
              bindE (parse_ad_structures decode adv_data) (\<lambda>(structures, info).
                Inr (pkt\<lparr>ad_structures := structures,
                         device_name := info_get (info_device_name info) [],
                         manufacturer := info_get (info_manufacturer info) '''',
                         manufacturer_data := info_get (info_manufacturer_data info) '''',
                         tx_power := info_tx_power info,
                         flags := info_get (info_flags info) [],
                         service_uuids := info_get (info_service_uuids info) []\<rparr>))
            else Inr pkt)
      else Inr pkt)"

text \<open>The branch for SCAN_RSP.\<close>

definition decode_scan_rsp :: "(byte list \<Rightarrow> ustring) \<Rightarrow> byte list \<Rightarrow> ble_packet \<Rightarrow> py_error + ble_packet" where
  "decode_scan_rsp decode raw pkt =
     (if 12 \<le> length raw then
        (let pkt = pkt\<lparr>adv_address := bytes_to_mac (py_slice raw 6 12)\<rparr>;
             adv_data = adv_data_of raw
         in if adv_data \<noteq> [] then
              bindE (parse_ad_structures decode adv_data) (\<lambda>(structures, info).
                Inr (pkt\<lparr>ad_structures := structures,
                         device_name := info_get (info_device_name info) [],
                         manufacturer := info_get (info_manufacturer info) '''',
                         manufacturer_data := info_get (info_manufacturer_data info) ''''\<rparr>))
            else Inr pkt)
      else Inr pkt)"

text \<open>The branch for SCAN_REQ.\<close>

definition decode_scan_req :: "byte list \<Rightarrow> ble_packet \<Rightarrow> py_error + ble_packet" where
  "decode_scan_req raw pkt =
     (if 18 \<le> length raw then
        Inr (pkt\<lparr>scanner_address := bytes_to_mac (py_slice raw 6 12),
                 adv_address := bytes_to_mac (py_slice raw 12 18)\<rparr>)
      else Inr pkt)"

text \<open>The branch for CONNECT_IND.\<close>

definition decode_connect_ind :: "byte list \<Rightarrow> ble_packet \<Rightarrow> py_error + ble_packet" where
  "decode_connect_ind raw pkt =
     (if 40 \<le> length raw then
        (let ll_data = py_slice raw 18 40 in
         bindE (unpack_le 2 (py_slice ll_data 10 12)) (\<lambda>interval.
         bindE (unpack_le 2 (py_slice ll_data 12 14)) (\<lambda>latency.
         bindE (unpack_le 2 (py_slice ll_data 14 16)) (\<lambda>timeout.
           Inr (pkt\<lparr>initiator_address := bytes_to_mac (py_slice raw 6 12),
                    adv_address := bytes_to_mac (py_slice raw 12 18),
                    conn_access_addr := bytes_hex (rev (py_slice ll_data 0 4)),
                    conn_crc_init := bytes_hex (py_slice ll_data 4 7),
                    conn_interval := of_nat interval * (5 / 4),
                    conn_latency := latency,
                    conn_timeout := of_nat (timeout * 10)\<rparr>)))))
      else Inr pkt)"

text \<open>The dispatch on the PDU type (\<open>if pkt.pdu_type in (0x00, 0x02, 0x06): ... elif ...\<close>).\<close>

definition decode_body :: "(byte list \<Rightarrow> ustring) \<Rightarrow> byte list \<Rightarrow> ble_packet \<Rightarrow> py_error + ble_packet" where
  "decode_body decode raw pkt =
     (if pdu_type pkt = 0x00 \<or> pdu_type pkt = 0x02 \<or> pdu_type pkt = 0x06
        then decode_adv decode raw pkt
      else if pdu_type pkt = 0x04 then decode_scan_rsp decode raw pkt
      else if pdu_type pkt = 0x03 then decode_scan_req raw pkt
      else if pdu_type pkt = 0x05 then decode_connect_ind raw pkt
      else Inr pkt)"

text \<open>\<open>parse_ble_packet\<close>. The constructor call evaluates \<open>timestamp / 32.0\<close> first.\<close>

definition parse_ble_packet ::
  "(byte list \<Rightarrow> ustring) \<Rightarrow> byte list \<Rightarrow> int \<Rightarrow> int \<Rightarrow> int \<Rightarrow> py_error + ble_packet" where
  "parse_ble_packet decode raw rn pn ts =
     bindE (py_float_of_int ts) (\<lambda>ts_float.
       (let pkt = BLEPacket rn pn ts (ts_float / 32) (length raw) raw in
        if length raw < 6 then Inr pkt
        else
          (let pkt = pkt\<lparr>access_address := bytes_hex (py_slice raw 0 4)\<rparr>;
               is_advertising = (py_slice raw 0 4 = BLE_ADV_ACCESS_ADDR)
           in if \<not> is_advertising then Inr (pkt\<lparr>pdu_type_name := ''DATA_CHANNEL''\<rparr>)
              else
                bindE (decode_pdu_header raw pkt) (\<lambda>pkt.
                bindE (decode_status raw pkt) (\<lambda>pkt.
                  decode_body decode raw pkt)))))"

section \<open>Reading a capture\<close>

text \<open>The body of the loop of \<open>parse_psd_file\<close>: the packets that one record adds.\<close>

definition parse_record :: "(byte list \<Rightarrow> ustring) \<Rightarrow> byte list \<Rightarrow> nat \<Rightarrow> py_error + ble_packet list" where
  "parse_record decode data recno =
     (let offset = recno * RECORD_SIZE in
      bindE (idx data (int offset)) (\<lambda>packet_info.
      bindE (unpack_le 4 (py_slice data (offset + 1) (offset + 5))) (\<lambda>packet_num.
      bindE (unpack_le 8 (py_slice data (offset + 5) (offset + 13))) (\<lambda>timestamp.
      bindE (unpack_le 2 (py_slice data (offset + 13) (offset + 15))) (\<lambda>total_len.
      bindE (extract_payload data offset) (\<lambda>payload.
        if 4 \<le> length payload then
          bindE (parse_ble_packet decode payload (int recno + 1) (int packet_num) (int timestamp))
            (\<lambda>pkt. Inr [pkt])
        else Inr []))))))"

fun psd_loop ::
  "(byte list \<Rightarrow> ustring) \<Rightarrow> byte list \<Rightarrow> nat list \<Rightarrow> ble_packet list \<Rightarrow> py_error + ble_packet list" where
  "psd_loop decode data [] packets = Inr packets"
| "psd_loop decode data (recno # rest) packets =
     (case parse_record decode data recno of
        Inl e \<Rightarrow> Inl e
      | Inr new \<Rightarrow> psd_loop decode data rest (packets @ new))"

text \<open>\<open>parse_psd_file\<close>, on the contents of the file.\<close>

definition parse_psd_file :: "(byte list \<Rightarrow> ustring) \<Rightarrow> byte list \<Rightarrow> py_error + ble_packet list" where
  "parse_psd_file decode data = psd_loop decode data [0..<length data div RECORD_SIZE] []"

section \<open>Converter to the packet-capture container, PPI mode\<close>

definition PCAP_MAGIC :: int where
  "PCAP_MAGIC = 0xa1b2c3d4"

definition PCAP_VERSION_MAJOR :: int where
  "PCAP_VERSION_MAJOR = 2"

definition PCAP_VERSION_MINOR :: int where
  "PCAP_VERSION_MINOR = 4"

definition PCAP_THISZONE :: int where
  "PCAP_THISZONE = 0"

definition PCAP_SIGFIGS :: int where
  "PCAP_SIGFIGS = 0"

definition PCAP_SNAPLEN :: int where
  "PCAP_SNAPLEN = 65535"

definition DLT_BLUETOOTH_LE_LL :: int where
  "DLT_BLUETOOTH_LE_LL = 251"

definition DLT_PPI :: int where
  "DLT_PPI = 192"

text \<open>\<open>struct.pack('<...', v1, ..., vn)\<close>: the fields packed in order, without
  padding; each field is given with its size in bytes.\<close>

fun pack_fields :: "(nat \<times> int) list \<Rightarrow> py_error + byte list" where
  "pack_fields [] = Inr []"
| "pack_fields ((n, v) # rest) =
     (case pack_le n v of
        Inl e \<Rightarrow> Inl e
      | Inr bs \<Rightarrow> (case pack_fields rest of Inl e \<Rightarrow> Inl e | Inr tl_bytes \<Rightarrow> Inr (bs @ tl_bytes)))"

text \<open>The output file \<open>f\<close> is the list of the bytes written so far; a write returns
  the file with the bytes appended.\<close>

definition write_pcap_header :: "byte list \<Rightarrow> int \<Rightarrow> py_error + byte list" where
  "write_pcap_header f link_type =
     bindE (pack_fields
              [(4, PCAP_MAGIC), (2, PCAP_VERSION_MAJOR), (2, PCAP_VERSION_MINOR),
               (4, PCAP_THISZONE), (4, PCAP_SIGFIGS), (4, PCAP_SNAPLEN), (4, link_type)])
       (\<lambda>header. Inr (f @ header))"

definition write_pcap_packet :: "byte list \<Rightarrow> rat \<Rightarrow> byte list \<Rightarrow> py_error + byte list" where
  "write_pcap_packet f ts_us data =
     (let ts_sec = py_int_of_float (ts_us / 1000000);
          ts_usec = py_int_of_float (py_float_mod ts_us 1000000)
      in bindE (pack_fields [(4, ts_sec), (4, ts_usec), (4, int (length data)), (4, int (length data))])
           (\<lambda>pkt_header. Inr (f @ pkt_header @ data)))"

text \<open>The body of the reading loop of \<open>convert_psd_to_pcap_with_ppi\<close>: the tuples
  \<open>(timestamp_us, payload, rssi, channel)\<close> that one record adds.\<close>

definition ppi_record :: "byte list \<Rightarrow> nat \<Rightarrow> py_error + (rat \<times> byte list \<times> int \<times> nat) list" where
  "ppi_record data recno =
     (let offset = recno * RECORD_SIZE in
      bindE (unpack_le 4 (py_slice data (offset + 1) (offset + 5))) (\<lambda>packet_num.
      bindE (unpack_le 8 (py_slice data (offset + 5) (offset + 13))) (\<lambda>timestamp.
      bindE (extract_payload data offset) (\<lambda>payload.
        if 4 \<le> length payload then
          bindE (if 2 \<le> length payload then
                   bindE (idx payload (- 2)) (\<lambda>rssi_raw.
                   bindE (idx payload (- 1)) (\<lambda>status.
                     Inr (rssi_of_raw rssi_raw, unat (status AND 0x3F))))
                 else Inr (- 100, 0)) (\<lambda>(rssi, channel).
          bindE (py_float_of_int (int timestamp)) (\<lambda>ts_float.
            Inr [(ts_float / 32, payload, rssi, channel)]))
        else Inr []))))"

fun ppi_read_loop ::
  "byte list \<Rightarrow> nat list \<Rightarrow> (rat \<times> byte list \<times> int \<times> nat) list
     \<Rightarrow> py_error + (rat \<times> byte list \<times> int \<times> nat) list" where
  "ppi_read_loop data [] packets = Inr packets"
| "ppi_read_loop data (recno # rest) packets =
     (case ppi_record data recno of
        Inl e \<Rightarrow> Inl e
      | Inr new \<Rightarrow> ppi_read_loop data rest (packets @ new))"

text \<open>\<open>struct.pack('<BBHI', ppi_version, ppi_flags, ppi_header_len, ppi_dlt)\<close> with
  \<open>ppi_version = 0\<close>, \<open>ppi_flags = 0\<close>, \<open>ppi_header_len = 8\<close> and
  \<open>ppi_dlt = DLT_BLUETOOTH_LE_LL\<close>.\<close>

definition ppi_header :: "py_error + byte list" where
  "ppi_header = pack_fields [(1, 0), (1, 0), (2, 8), (4, DLT_BLUETOOTH_LE_LL)]"

text \<open>The writing loop: \<open>rssi\<close> and \<open>channel\<close> are unpacked from the tuple and not
  used by the body.\<close>

fun ppi_write_loop ::
  "byte list \<Rightarrow> rat \<Rightarrow> (rat \<times> byte list \<times> int \<times> nat) list \<Rightarrow> py_error + byte list" where
  "ppi_write_loop f base_time [] = Inr f"
| "ppi_write_loop f base_time ((ts_us, payload, rssi_val, channel_val) # rest) =
     (case ppi_header of
        Inl e \<Rightarrow> Inl e
      | Inr header \<Rightarrow>
          (case write_pcap_packet f (ts_us - base_time) (header @ payload) of
             Inl e \<Rightarrow> Inl e
           | Inr f' \<Rightarrow> ppi_write_loop f' base_time rest))"

text \<open>\<open>convert_psd_to_pcap_with_ppi\<close>, from the contents of the input file to the
  contents of the output file.\<close>

definition convert_psd_to_pcap_with_ppi :: "byte list \<Rightarrow> py_error + byte list" where
  "convert_psd_to_pcap_with_ppi data =
     bindE (ppi_read_loop data [0..<length data div RECORD_SIZE] []) (\<lambda>packets.
       (let base_time = (case packets of [] \<Rightarrow> 0 | p # _ \<Rightarrow> fst p) in
        bindE (write_pcap_header [] DLT_PPI) (\<lambda>f.
          ppi_write_loop f base_time packets)))"

section \<open>Notions used to state the properties\<close>

text \<open>The last element of a list, when there is one.\<close>

definition last_opt :: "'a list \<Rightarrow> 'a option" where
  "last_opt xs = (if xs = [] then None else Some (last xs))"

text \<open>What the parsed structures carry, per kind of decoded element, in order.\<close>

definition names_of :: "ad_structure list \<Rightarrow> ustring list" where
  "names_of ss = concat (map (\<lambda>s. case decoded s of Name n \<Rightarrow> [n] | _ \<Rightarrow> []) ss)"

definition companies_of :: "ad_structure list \<Rightarrow> (string \<times> string) list" where
  "companies_of ss =
     concat (map (\<lambda>s. case decoded s of Manufacturer c name payload \<Rightarrow> [(name, payload)] | _ \<Rightarrow> []) ss)"

definition flags_of :: "ad_structure list \<Rightarrow> string list list" where
  "flags_of ss = concat (map (\<lambda>s. case decoded s of Flags fs \<Rightarrow> [fs] | _ \<Rightarrow> []) ss)"

definition tx_powers_of :: "ad_structure list \<Rightarrow> int list" where
  "tx_powers_of ss = concat (map (\<lambda>s. case decoded s of TxPower p \<Rightarrow> [p] | _ \<Rightarrow> []) ss)"

definition uuid_lists_of :: "ad_structure list \<Rightarrow> string list list" where
  "uuid_lists_of ss = concat (map (\<lambda>s. case decoded s of Uuids us \<Rightarrow> [us] | _ \<Rightarrow> []) ss)"

text \<open>The summary that belongs to a list of structures: the latest name, company,
  flags and TX power, and all UUIDs in order.\<close>

definition summary_of :: "ad_structure list \<Rightarrow> info_dict" where
  "summary_of ss =
     \<lparr>info_flags = last_opt (flags_of ss),
      info_device_name = last_opt (names_of ss),
      info_tx_power = last_opt (tx_powers_of ss),
      info_manufacturer = map_option fst (last_opt (companies_of ss)),
      info_manufacturer_data = map_option snd (last_opt (companies_of ss)),
      info_service_uuids =
        (if uuid_lists_of ss = [] then None else Some (concat (uuid_lists_of ss)))\<rparr>"

text \<open>
  For evaluating examples the decoder parameter is instantiated on ASCII input, where
  Python's UTF-8 decoder returns one code point per byte, the value of the byte. Every
  example below that contains a name uses bytes below \<open>0x80\<close> only.
\<close>

definition decode_ascii :: "byte list \<Rightarrow> ustring" where
  "decode_ascii bs = map unat bs"

text \<open>The two tests that \<open>parse_ble_packet\<close> makes on a payload before it decodes
  a PDU, and the PDU type it reads from the header byte.\<close>

definition is_advertising :: "byte list \<Rightarrow> bool" where
  "is_advertising raw \<longleftrightarrow> 6 \<le> length raw \<and> py_slice raw 0 4 = BLE_ADV_ACCESS_ADDR"

definition header_type :: "byte list \<Rightarrow> nat" where
  "header_type raw = unat (raw ! 4 AND 0x0F)"

text \<open>The fields that the readers take from the record with index \<open>k\<close>.\<close>

definition record_payload :: "byte list \<Rightarrow> nat \<Rightarrow> byte list" where
  "record_payload data k =
     py_slice data (k * RECORD_SIZE + 16)
       (k * RECORD_SIZE + 16 + unat (data ! (k * RECORD_SIZE + 15)))"

definition record_packet_num :: "byte list \<Rightarrow> nat \<Rightarrow> nat" where
  "record_packet_num data k = le_value (py_slice data (k * RECORD_SIZE + 1) (k * RECORD_SIZE + 5))"

definition record_timestamp :: "byte list \<Rightarrow> nat \<Rightarrow> nat" where
  "record_timestamp data k = le_value (py_slice data (k * RECORD_SIZE + 5) (k * RECORD_SIZE + 13))"

section \<open>Properties of the Python operations\<close>

lemma bindE_Inr [simp]: "bindE (Inr x) f = f x"
  by (simp add: bindE_def)

lemma bindE_Inl [simp]: "bindE (Inl e) f = Inl e"
  by (simp add: bindE_def)

lemma idx_from_end:
  "0 < k \<Longrightarrow> k \<le> length xs \<Longrightarrow> idx xs (- int k) = Inr (xs ! (length xs - k))"
  by (simp add: idx_def nat_diff_distrib' of_nat_diff)

lemma unpack_le_exact: "length bs = n \<Longrightarrow> unpack_le n bs = Inr (le_value bs)"
  by (simp add: unpack_le_def)

lemma py_slice_nth: "a + k < length xs \<Longrightarrow> k < b - a \<Longrightarrow> py_slice xs a b ! k = xs ! (a + k)"
  by (simp add: py_slice_def)

subsection \<open>Conversion to float\<close>

lemma round_to_double_small:
  assumes "n < 2 ^ 53"
  shows "round_to_double n = n"
proof (cases "n = 0")
  case True
  then show ?thesis
    by (simp add: round_to_double_def Let_def floorlog_def)
next
  case False
  then have "2 ^ (floorlog 2 n - 1) \<le> n"
    using floorlog_bounds [of n 2] by simp
  with assms have "(2::nat) ^ (floorlog 2 n - 1) < 2 ^ 53"
    by simp
  then have "floorlog 2 n - 1 < 53"
    by (simp only: power_strict_increasing_iff one_less_numeral_iff semiring_norm)
  then have "floorlog 2 n \<le> 53"
    by arith
  then show ?thesis
    by (simp add: round_to_double_def Let_def)
qed

lemma round_to_double_le: "round_to_double n \<le> 2 * n"
proof (cases "floorlog 2 n \<le> 53")
  case True
  then show ?thesis
    by (simp add: round_to_double_def Let_def)
next
  case False
  define e where "e = floorlog 2 n - 53"
  define q where "q = n div 2 ^ e"
  from False have pos: "0 < n"
    by (auto simp: floorlog_def split: if_splits)
  have "2 ^ (floorlog 2 n - 1) \<le> n"
    using floorlog_bounds [of n 2] pos by simp
  moreover have "(2::nat) ^ e \<le> 2 ^ (floorlog 2 n - 1)"
    using False by (intro power_increasing) (simp_all add: e_def)
  ultimately have small: "2 ^ e \<le> n"
    by (rule order_trans [rotated])
  have "q * 2 ^ e \<le> n"
    by (simp add: q_def)
  then have "(q + 1) * 2 ^ e \<le> 2 * n"
    using small by (simp add: algebra_simps)
  moreover have "round_to_double n \<le> (q + 1) * 2 ^ e"
    using False by (simp add: round_to_double_def Let_def e_def q_def)
  ultimately show ?thesis
    by simp
qed

lemma py_float_of_int_total:
  assumes "\<bar>ts\<bar> < 2 ^ 1023"
  shows "\<exists>x. py_float_of_int ts = Inr x"
proof -
  have "nat \<bar>ts\<bar> < 2 ^ 1023"
    using assms by (simp add: nat_less_iff)
  then have "2 * nat \<bar>ts\<bar> < 2 ^ 1024"
    by simp
  then have "round_to_double (nat \<bar>ts\<bar>) < 2 ^ 1024"
    using round_to_double_le [of "nat \<bar>ts\<bar>"] by (rule le_less_trans [rotated])
  then show ?thesis
    by (simp add: py_float_of_int_def Let_def)
qed

lemma py_float_of_int_exact:
  assumes "\<bar>ts\<bar> < 2 ^ 53"
  shows "py_float_of_int ts = Inr (of_int ts)"
proof -
  have n: "nat \<bar>ts\<bar> < 2 ^ 53"
    using assms by (simp add: nat_less_iff)
  have "(2::nat) ^ 53 < 2 ^ 1024"
    by (simp only: power_strict_increasing_iff one_less_numeral_iff semiring_norm)
  with n have "\<not> (2::nat) ^ 1024 \<le> nat \<bar>ts\<bar>"
    by simp
  then show ?thesis
    using round_to_double_small [OF n]
    by (simp add: py_float_of_int_def Let_def)
qed

section \<open>Record reader: properties\<close>

lemma idx_in_range: "i < length xs \<Longrightarrow> idx xs (int i) = Inr (xs ! i)"
  by (simp add: idx_def)

lemma length_slice: "length (py_slice xs a b) = min (b - a) (length xs - a)"
  by (simp add: py_slice_def)

lemma record_within_buffer:
  assumes "recno < length data div RECORD_SIZE"
  shows "recno * RECORD_SIZE + RECORD_SIZE \<le> length data"
proof -
  have "Suc recno \<le> length data div RECORD_SIZE"
    using assms by simp
  then have "Suc recno * RECORD_SIZE \<le> (length data div RECORD_SIZE) * RECORD_SIZE"
    by (rule mult_le_mono1)
  also have "\<dots> \<le> length data"
    by simp
  finally show ?thesis
    by simp
qed

text \<open>
  C10. For every complete record (index below \<open>len(data) // RECORD_SIZE\<close>) the payload
  taken from the record has exactly as many bytes as the length field at record offset
  15 says: that field is at most 255, which is \<open>RECORD_SIZE - HEADER_SIZE\<close>, so the
  slice ends at or before the end of the record and is never cut short.
\<close>

theorem payload_has_declared_length:
  assumes "recno < length data div RECORD_SIZE"
  shows "\<exists>payload. extract_payload data (recno * RECORD_SIZE) = Inr payload
           \<and> length payload = unat (data ! (recno * RECORD_SIZE + 15))
           \<and> unat (data ! (recno * RECORD_SIZE + 15)) \<le> RECORD_SIZE - HEADER_SIZE
           \<and> recno * RECORD_SIZE + HEADER_SIZE + length payload
               \<le> recno * RECORD_SIZE + RECORD_SIZE"
proof -
  let ?off = "recno * RECORD_SIZE"
  let ?b = "data ! (?off + 15)"
  have inside: "?off + 271 \<le> length data"
    using record_within_buffer [OF assms] by (simp add: RECORD_SIZE_def)
  have small: "unat ?b \<le> 255"
    using unsigned_less [of ?b, where ?'a = nat] by simp
  have "idx data (int ?off + 15) = Inr ?b"
    using idx_in_range [of "?off + 15" data] inside by simp
  then have "extract_payload data ?off = Inr (py_slice data (?off + 16) (?off + 16 + unat ?b))"
    by (simp add: extract_payload_def bindE_def)
  moreover have "length (py_slice data (?off + 16) (?off + 16 + unat ?b)) = unat ?b"
    using inside small by (simp add: length_slice)
  ultimately show ?thesis
    using small by (simp add: RECORD_SIZE_def HEADER_SIZE_def)
qed

theorem payload_has_declared_length_witness:
  "(0::nat) < length (replicate 271 (5::byte)) div RECORD_SIZE
     \<and> (\<exists>payload. extract_payload (replicate 271 5) (0 * RECORD_SIZE) = Inr payload
            \<and> length payload = 5)"
  using payload_has_declared_length [of 0 "replicate 271 5"]
  by (auto simp add: RECORD_SIZE_def)

section \<open>AD-structure parser: properties\<close>

declare ad_loop.simps [simp del]

lemma uuids_loop_total:
  "\<exists>us. uuids_loop ad_data js acc = Inr us"
proof (induction js arbitrary: acc)
  case Nil
  show ?case by simp
next
  case (Cons j js)
  show ?case
  proof (cases "j + 2 \<le> length ad_data")
    case True
    then have "length (py_slice ad_data j (j + 2)) = 2"
      by (simp add: length_slice)
    then have "unpack_le 2 (py_slice ad_data j (j + 2)) = Inr (le_value (py_slice ad_data j (j + 2)))"
      by (rule unpack_le_exact)
    with True Cons.IH show ?thesis
      by simp
  next
    case False
    with Cons.IH show ?thesis
      by simp
  qed
qed

lemma decode_ad_total: "\<exists>d info'. decode_ad decode t ad_data info = Inr (d, info')"
proof -
  have first: "ad_data \<noteq> [] \<Longrightarrow> idx ad_data 0 = Inr (ad_data ! 0)"
    using idx_in_range [of 0 ad_data] by simp
  have company: "2 \<le> length ad_data \<Longrightarrow>
      unpack_le 2 (py_slice ad_data 0 2) = Inr (le_value (py_slice ad_data 0 2))"
    by (rule unpack_le_exact) (simp add: length_slice)
  obtain us where "uuids_loop ad_data (filter even [0..<length ad_data]) [] = Inr us"
    using uuids_loop_total by blast
  then show ?thesis
    using first company by (simp add: decode_ad_def Let_def)
qed

lemma ad_loop_stop:
  assumes "\<not> i + 1 < length data \<or> data ! i = 0 \<or> length data \<le> i + unat (data ! i)"
  shows "ad_loop decode data i structures info = Inr (structures, info)"
proof (cases "i + 1 < length data")
  case True
  then have "idx data (int i) = Inr (data ! i)"
    by (simp add: idx_in_range)
  with True assms show ?thesis
    by (subst ad_loop.simps) (auto simp: unat_eq_0)
next
  case False
  then have "\<not> int i < int (length data) - 1"
    by linarith
  then show ?thesis
    by (subst ad_loop.simps) simp
qed

lemma ad_loop_step:
  assumes "i + 1 < length data" and "data ! i \<noteq> 0" and "i + unat (data ! i) < length data"
    and "decode_ad decode (data ! (i + 1)) (py_slice data (i + 2) (i + 1 + unat (data ! i))) info
           = Inr (d, info')"
  shows "ad_loop decode data i structures info =
           ad_loop decode data (i + unat (data ! i) + 1)
             (structures @
                [\<lparr>ad_type = data ! (i + 1),
                  type_name = get_ad_type_name (unat (data ! (i + 1))),
                  data_hex = bytes_hex (py_slice data (i + 2) (i + 1 + unat (data ! i))),
                  ad_length = int (unat (data ! i)) - 1,
                  decoded = d\<rparr>])
             info'"
proof -
  have a: "idx data (int i) = Inr (data ! i)"
    using assms(1) by (simp add: idx_in_range)
  have b: "idx data (int i + 1) = Inr (data ! (i + 1))"
    using assms(1) idx_in_range [of "i + 1" data] by (simp add: add.commute)
  have c: "int i < int (length data) - 1"
    using assms(1) by linarith
  have d: "unat (data ! i) \<noteq> 0"
    using assms(2) by (simp add: unat_eq_0)
  show ?thesis
    using a b c d assms(3,4) by (subst ad_loop.simps) simp
qed

lemma ad_loop_total:
  "\<exists>ss' info'. ad_loop decode data i structures info = Inr (ss', info') \<and> (\<exists>new. ss' = structures @ new)"
proof (induction "length data - i" arbitrary: i structures info rule: less_induct)
  case less
  show ?case
  proof (cases "\<not> i + 1 < length data \<or> data ! i = 0 \<or> length data \<le> i + unat (data ! i)")
    case True
    then show ?thesis
      by (simp add: ad_loop_stop)
  next
    case False
    then have go: "i + 1 < length data" "data ! i \<noteq> 0" "i + unat (data ! i) < length data"
      by simp_all
    obtain d info' where dec:
      "decode_ad decode (data ! (i + 1)) (py_slice data (i + 2) (i + 1 + unat (data ! i))) info
         = Inr (d, info')"
      using decode_ad_total by blast
    have "length data - (i + unat (data ! i) + 1) < length data - i"
      using go by simp
    from less [OF this] show ?thesis
      by (subst ad_loop_step [OF go dec]) (metis append.assoc)
  qed
qed

lemma last_opt_snoc [simp]: "last_opt (xs @ [x]) = Some x"
  by (simp add: last_opt_def)

lemma summary_of_snoc:
  "summary_of (ss @ [s]) =
     (case decoded s of
        NoDecode \<Rightarrow> summary_of ss
      | Flags fs \<Rightarrow> (summary_of ss)\<lparr>info_flags := Some fs\<rparr>
      | Name n \<Rightarrow> (summary_of ss)\<lparr>info_device_name := Some n\<rparr>
      | TxPower p \<Rightarrow> (summary_of ss)\<lparr>info_tx_power := Some p\<rparr>
      | Manufacturer c name payload \<Rightarrow>
          (summary_of ss)\<lparr>info_manufacturer := Some name, info_manufacturer_data := Some payload\<rparr>
      | Uuids us \<Rightarrow>
          (summary_of ss)\<lparr>info_service_uuids :=
             Some ((case info_service_uuids (summary_of ss) of None \<Rightarrow> [] | Some old \<Rightarrow> old) @ us)\<rparr>)"
  by (cases "decoded s")
     (simp_all add: summary_of_def names_of_def companies_of_def flags_of_def
        tx_powers_of_def uuid_lists_of_def)

lemma decode_ad_summary:
  assumes "decode_ad decode t ad_data (summary_of ss) = Inr (d, info')"
  shows "info' = summary_of (ss @ [\<lparr>ad_type = t, type_name = tn, data_hex = dh, ad_length = al, decoded = d\<rparr>])"
  using assms
  by (auto simp: decode_ad_def Let_def bindE_def summary_of_snoc split: if_splits sum.splits)

lemma ad_loop_summary:
  "ad_loop decode data i ss (summary_of ss) = Inr (ss', info') \<Longrightarrow> info' = summary_of ss'"
proof (induction "length data - i" arbitrary: i ss rule: less_induct)
  case less
  show ?case
  proof (cases "\<not> i + 1 < length data \<or> data ! i = 0 \<or> length data \<le> i + unat (data ! i)")
    case True
    with less.prems show ?thesis
      by (auto simp: ad_loop_stop)
  next
    case False
    then have go: "i + 1 < length data" "data ! i \<noteq> 0" "i + unat (data ! i) < length data"
      by simp_all
    obtain d info1 where dec:
      "decode_ad decode (data ! (i + 1)) (py_slice data (i + 2) (i + 1 + unat (data ! i))) (summary_of ss)
         = Inr (d, info1)"
      using decode_ad_total by blast
    have smaller: "length data - (i + unat (data ! i) + 1) < length data - i"
      using go by simp
    let ?s = "\<lparr>ad_type = data ! (i + 1),
                type_name = get_ad_type_name (unat (data ! (i + 1))),
                data_hex = bytes_hex (py_slice data (i + 2) (i + 1 + unat (data ! i))),
                ad_length = int (unat (data ! i)) - 1,
                decoded = d\<rparr>"
    have "info1 = summary_of (ss @ [?s])"
      by (rule decode_ad_summary [OF dec])
    moreover have "ad_loop decode data (i + unat (data ! i) + 1) (ss @ [?s]) info1 = Inr (ss', info')"
      using less.prems by (simp only: ad_loop_step [OF go dec])
    ultimately show ?thesis
      using less.hyps [OF smaller, of "ss @ [?s]"] by simp
  qed
qed

text \<open>
  C6. Parsing an advertising-data range always returns (the loop is a total function
  and no step of it raises). At a position where the loop reads a length byte that is
  zero, or whose element would end beyond the range, it returns the structures and the
  summary collected so far, unchanged. The structures collected at any point are a
  prefix of the result.
\<close>

theorem ad_parsing_terminates:
  "(\<exists>ss info. parse_ad_structures decode data = Inr (ss, info))
   \<and> (\<forall>i ss info.
         i + 1 < length data \<and> (data ! i = 0 \<or> length data \<le> i + unat (data ! i))
         \<longrightarrow> ad_loop decode data i ss info = Inr (ss, info))
   \<and> (\<forall>i ss info. \<exists>ss' info' new.
         ad_loop decode data i ss info = Inr (ss', info') \<and> ss' = ss @ new)"
proof (intro conjI allI impI)
  show "\<exists>ss info. parse_ad_structures decode data = Inr (ss, info)"
    using ad_loop_total [of decode data 0 "[]" empty_info]
    by (auto simp: parse_ad_structures_def)
next
  fix i ss info
  assume "i + 1 < length data \<and> (data ! i = 0 \<or> length data \<le> i + unat (data ! i))"
  then show "ad_loop decode data i ss info = Inr (ss, info)"
    by (intro ad_loop_stop) blast
next
  fix i ss info
  show "\<exists>ss' info' new. ad_loop decode data i ss info = Inr (ss', info') \<and> ss' = ss @ new"
    using ad_loop_total [of decode data i ss info] by blast
qed

theorem ad_parsing_terminates_witness:
  "(3::nat) + 1 < length [2, 1, 6, 0, 2, 9, 0x41 :: byte]
   \<and> [2, 1, 6, 0, 2, 9, 0x41 :: byte] ! 3 = 0
   \<and> ad_loop decode_ascii [2, 1, 6, 0, 2, 9, 0x41] 3 [] empty_info = Inr ([], empty_info)"
proof -
  have "\<forall>i ss info.
          i + 1 < length [2, 1, 6, 0, 2, 9, 0x41 :: byte]
            \<and> ([2, 1, 6, 0, 2, 9, 0x41 :: byte] ! i = 0
                \<or> length [2, 1, 6, 0, 2, 9, 0x41 :: byte] \<le> i + unat ([2, 1, 6, 0, 2, 9, 0x41 :: byte] ! i))
          \<longrightarrow> ad_loop decode_ascii [2, 1, 6, 0, 2, 9, 0x41] i ss info = Inr (ss, info)"
    using ad_parsing_terminates [of decode_ascii "[2, 1, 6, 0, 2, 9, 0x41]"] by blast
  then have "(3::nat) + 1 < length [2, 1, 6, 0, 2, 9, 0x41 :: byte]
            \<and> ([2, 1, 6, 0, 2, 9, 0x41 :: byte] ! 3 = 0
                \<or> length [2, 1, 6, 0, 2, 9, 0x41 :: byte] \<le> 3 + unat ([2, 1, 6, 0, 2, 9, 0x41 :: byte] ! 3))
          \<longrightarrow> ad_loop decode_ascii [2, 1, 6, 0, 2, 9, 0x41] 3 [] empty_info = Inr ([], empty_info)"
    by blast
  then show ?thesis
    by simp
qed

lemma zero_length_element_example:
  "parse_ad_structures decode_ascii [2, 1, 6, 0, 2, 9, 0x41] =
     Inr ([\<lparr>ad_type = 1, type_name = ''Flags'', data_hex = ''06'', ad_length = 1,
              decoded = Flags [''LE General Discoverable'', ''BR/EDR Not Supported'']\<rparr>],
          empty_info\<lparr>info_flags := Some [''LE General Discoverable'', ''BR/EDR Not Supported'']\<rparr>)"
  by code_simp

lemma summary_of_Nil: "summary_of [] = empty_info"
  by (simp add: summary_of_def empty_info_def last_opt_def names_of_def companies_of_def
      flags_of_def tx_powers_of_def uuid_lists_of_def)

text \<open>
  C5 (as stated, refuted). With two local-name elements \<open>A\<close>, \<open>B\<close> and two
  manufacturer elements (Apple, then Microsoft) in one range, the summary holds the name
  and the manufacturer of the later element, not of the earlier one.
\<close>

theorem summary_first_write_counterexample:
  "parse_ad_structures decode_ascii
     [2, 0x09, 0x41, 2, 0x09, 0x42, 3, 0xFF, 0x4C, 0x00, 3, 0xFF, 0x06, 0x00] =
   Inr ([\<lparr>ad_type = 0x09, type_name = ''Complete Local Name'', data_hex = ''41'',
            ad_length = 1, decoded = Name [0x41]\<rparr>,
         \<lparr>ad_type = 0x09, type_name = ''Complete Local Name'', data_hex = ''42'',
            ad_length = 1, decoded = Name [0x42]\<rparr>,
         \<lparr>ad_type = 0xFF, type_name = ''Manufacturer Specific'', data_hex = ''4c00'',
            ad_length = 2, decoded = Manufacturer 0x4C ''Apple'' ''''\<rparr>,
         \<lparr>ad_type = 0xFF, type_name = ''Manufacturer Specific'', data_hex = ''0600'',
            ad_length = 2, decoded = Manufacturer 0x06 ''Microsoft'' ''''\<rparr>],
        \<lparr>info_flags = None, info_device_name = Some [0x42], info_tx_power = None,
         info_manufacturer = Some ''Microsoft'', info_manufacturer_data = Some '''',
         info_service_uuids = None\<rparr>)"
  by code_simp

text \<open>
  C5 (amended). The summary returned with the structures is last-write-wins for the
  device name, the manufacturer and its data, the flags and the TX power: each is that
  of the latest structure decoded as such, and absent when there is none. The service
  UUIDs accumulate: all UUID lists of the structures, in order.
\<close>

theorem summary_last_write_wins:
  assumes "parse_ad_structures decode data = Inr (ss, info)"
  shows "info_device_name info = last_opt (names_of ss)
    \<and> info_manufacturer info = map_option fst (last_opt (companies_of ss))
    \<and> info_manufacturer_data info = map_option snd (last_opt (companies_of ss))
    \<and> info_flags info = last_opt (flags_of ss)
    \<and> info_tx_power info = last_opt (tx_powers_of ss)
    \<and> info_service_uuids info =
        (if uuid_lists_of ss = [] then None else Some (concat (uuid_lists_of ss)))"
proof -
  have "ad_loop decode data 0 [] (summary_of []) = Inr (ss, info)"
    using assms by (simp add: parse_ad_structures_def summary_of_Nil)
  then have "info = summary_of ss"
    by (rule ad_loop_summary)
  then show ?thesis
    by (simp add: summary_of_def)
qed

theorem summary_last_write_wins_witness:
  "parse_ad_structures decode_ascii [2, 0x09, 0x41, 2, 0x08, 0x42] =
     Inr ([\<lparr>ad_type = 0x09, type_name = ''Complete Local Name'', data_hex = ''41'',
              ad_length = 1, decoded = Name [0x41]\<rparr>,
           \<lparr>ad_type = 0x08, type_name = ''Shortened Local Name'', data_hex = ''42'',
              ad_length = 1, decoded = Name [0x42]\<rparr>],
          empty_info\<lparr>info_device_name := Some [0x42]\<rparr>)
   \<and> info_device_name (empty_info\<lparr>info_device_name := Some [0x42]\<rparr>) =
       last_opt (names_of
         [\<lparr>ad_type = 0x09, type_name = ''Complete Local Name'', data_hex = ''41'',
            ad_length = 1, decoded = Name [0x41]\<rparr>,
          \<lparr>ad_type = 0x08, type_name = ''Shortened Local Name'', data_hex = ''42'',
            ad_length = 1, decoded = Name [0x42]\<rparr>])"
proof -
  have run: "parse_ad_structures decode_ascii [2, 0x09, 0x41, 2, 0x08, 0x42] =
     Inr ([\<lparr>ad_type = 0x09, type_name = ''Complete Local Name'', data_hex = ''41'',
              ad_length = 1, decoded = Name [0x41]\<rparr>,
           \<lparr>ad_type = 0x08, type_name = ''Shortened Local Name'', data_hex = ''42'',
              ad_length = 1, decoded = Name [0x42]\<rparr>],
          empty_info\<lparr>info_device_name := Some [0x42]\<rparr>)"
    by code_simp
  from summary_last_write_wins [OF run] run show ?thesis
    by blast
qed

section \<open>PDU decoder: properties\<close>

lemma decode_pdu_header_result:
  assumes "6 \<le> length raw"
  shows "decode_pdu_header raw pkt =
     Inr (pkt\<lparr>pdu_type := unat (raw ! 4 AND 0x0F),
              pdu_type_name := get_pdu_type_name (unat (raw ! 4 AND 0x0F)),
              tx_addr_type := (if drop_bit 6 (raw ! 4) AND 0x01 \<noteq> 0 then ''Random'' else ''Public''),
              pdu_length := unat (raw ! 5 AND 0x3F)\<rparr>)"
proof -
  have len: "length (py_slice raw 4 6) = 2"
    using assms by (simp add: length_slice)
  have h0: "idx (py_slice raw 4 6) 0 = Inr (raw ! 4)"
    using idx_in_range [of 0 "py_slice raw 4 6"] len py_slice_nth [of 4 0 raw 6] assms by simp
  have h1: "idx (py_slice raw 4 6) 1 = Inr (raw ! 5)"
    using idx_in_range [of 1 "py_slice raw 4 6"] len py_slice_nth [of 4 1 raw 6] assms by simp
  show ?thesis
    by (simp add: decode_pdu_header_def Let_def h0 h1)
qed

lemma decode_status_result:
  assumes "2 \<le> length raw"
  shows "decode_status raw pkt =
     Inr (pkt\<lparr>rssi := rssi_of_raw (raw ! (length raw - 2)),
              channel := unat (raw ! (length raw - 1) AND 0x3F),
              crc_ok := (raw ! (length raw - 1) AND 0x80 \<noteq> 0)\<rparr>)"
proof -
  have a: "idx raw (- 2) = Inr (raw ! (length raw - 2))"
    using idx_from_end [of 2 raw] assms by simp
  have b: "idx raw (- 1) = Inr (raw ! (length raw - 1))"
    using idx_from_end [of 1 raw] assms by simp
  show ?thesis
    using assms by (simp add: decode_status_def a b)
qed

lemma adv_data_of_empty: "adv_data_of raw = [] \<longleftrightarrow> length raw \<le> 14"
proof (cases "14 < length raw")
  case True
  then have "length (adv_data_of raw) = length raw - 14"
    by (simp add: adv_data_of_def length_slice)
  with True have "length (adv_data_of raw) \<noteq> 0"
    by simp
  with True show ?thesis
    by simp
next
  case False
  then show ?thesis
    by (simp add: adv_data_of_def)
qed

lemma parse_ad_structures_total:
  "\<exists>ss info. parse_ad_structures decode data = Inr (ss, info)"
  using ad_loop_total [of decode data 0 "[]" empty_info]
  by (auto simp: parse_ad_structures_def)

lemma decode_adv_result:
  "decode_adv decode raw pkt =
     (if length raw < 12 then Inr pkt
      else if length raw \<le> 14 then Inr (pkt\<lparr>adv_address := bytes_to_mac (py_slice raw 6 12)\<rparr>)
      else (case parse_ad_structures decode (adv_data_of raw) of
              Inl e \<Rightarrow> Inl e
            | Inr (structures, info) \<Rightarrow>
                Inr (pkt\<lparr>adv_address := bytes_to_mac (py_slice raw 6 12),
                         ad_structures := structures,
                         device_name := info_get (info_device_name info) [],
                         manufacturer := info_get (info_manufacturer info) '''',
                         manufacturer_data := info_get (info_manufacturer_data info) '''',
                         tx_power := info_tx_power info,
                         flags := info_get (info_flags info) [],
                         service_uuids := info_get (info_service_uuids info) []\<rparr>)))"
  using adv_data_of_empty [of raw]
  by (auto simp: decode_adv_def Let_def bindE_def split: sum.splits)

lemma decode_scan_rsp_result:
  "decode_scan_rsp decode raw pkt =
     (if length raw < 12 then Inr pkt
      else if length raw \<le> 14 then Inr (pkt\<lparr>adv_address := bytes_to_mac (py_slice raw 6 12)\<rparr>)
      else (case parse_ad_structures decode (adv_data_of raw) of
              Inl e \<Rightarrow> Inl e
            | Inr (structures, info) \<Rightarrow>
                Inr (pkt\<lparr>adv_address := bytes_to_mac (py_slice raw 6 12),
                         ad_structures := structures,
                         device_name := info_get (info_device_name info) [],
                         manufacturer := info_get (info_manufacturer info) '''',
                         manufacturer_data := info_get (info_manufacturer_data info) ''''\<rparr>)))"
  using adv_data_of_empty [of raw]
  by (auto simp: decode_scan_rsp_def Let_def bindE_def split: sum.splits)

lemma le_value_pair: "le_value [a, b] = unat a + 256 * unat b"
  by simp

lemma py_slice_pair:
  assumes "a + 1 < length xs"
  shows "py_slice xs a (a + 2) = [xs ! a, xs ! (a + 1)]"
proof -
  have "drop a xs = xs ! a # drop (Suc a) xs"
    using assms by (simp add: Cons_nth_drop_Suc)
  moreover have "drop (Suc a) xs = xs ! (Suc a) # drop (Suc (Suc a)) xs"
    using assms by (simp add: Cons_nth_drop_Suc)
  ultimately show ?thesis
    by (simp add: py_slice_def)
qed

lemma ll_data_field:
  assumes "40 \<le> length raw" and "k + 1 < 22"
  shows "unpack_le 2 (py_slice (py_slice raw 18 40) k (k + 2)) =
           Inr (unat (raw ! (18 + k)) + 256 * unat (raw ! (18 + k + 1)))"
proof -
  have len: "length (py_slice raw 18 40) = 22"
    using assms(1) by (simp add: length_slice)
  have pair: "py_slice (py_slice raw 18 40) k (k + 2) =
                [py_slice raw 18 40 ! k, py_slice raw 18 40 ! (k + 1)]"
    using py_slice_pair [of k "py_slice raw 18 40"] len assms(2) by simp
  have "py_slice raw 18 40 ! k = raw ! (18 + k)"
    using py_slice_nth [of 18 k raw 40] assms by simp
  moreover have "py_slice raw 18 40 ! (k + 1) = raw ! (18 + k + 1)"
    using py_slice_nth [of 18 "k + 1" raw 40] assms by (simp add: add.assoc)
  ultimately show ?thesis
    unfolding pair by (simp add: unpack_le_def)
qed

lemma decode_connect_ind_result:
  assumes "40 \<le> length raw"
  shows "decode_connect_ind raw pkt =
     Inr (pkt\<lparr>initiator_address := bytes_to_mac (py_slice raw 6 12),
              adv_address := bytes_to_mac (py_slice raw 12 18),
              conn_access_addr := bytes_hex (rev (py_slice (py_slice raw 18 40) 0 4)),
              conn_crc_init := bytes_hex (py_slice (py_slice raw 18 40) 4 7),
              conn_interval := of_nat (unat (raw ! 28) + 256 * unat (raw ! 29)) * (5 / 4),
              conn_latency := unat (raw ! 30) + 256 * unat (raw ! 31),
              conn_timeout := of_nat ((unat (raw ! 32) + 256 * unat (raw ! 33)) * 10)\<rparr>)"
  using assms ll_data_field [OF assms, of 10] ll_data_field [OF assms, of 12]
    ll_data_field [OF assms, of 14]
  by (simp add: decode_connect_ind_def Let_def)

lemma decode_connect_ind_short:
  "length raw < 40 \<Longrightarrow> decode_connect_ind raw pkt = Inr pkt"
  by (simp add: decode_connect_ind_def)

lemma decode_body_frame:
  "\<exists>pkt'. decode_body decode raw pkt = Inr pkt'
     \<and> record_num pkt' = record_num pkt \<and> packet_num pkt' = packet_num pkt
     \<and> timestamp pkt' = timestamp pkt \<and> timestamp_us pkt' = timestamp_us pkt
     \<and> payload_len pkt' = payload_len pkt \<and> raw_payload pkt' = raw_payload pkt
     \<and> access_address pkt' = access_address pkt \<and> pdu_type pkt' = pdu_type pkt
     \<and> pdu_type_name pkt' = pdu_type_name pkt \<and> pdu_length pkt' = pdu_length pkt
     \<and> tx_addr_type pkt' = tx_addr_type pkt \<and> target_address pkt' = target_address pkt
     \<and> rssi pkt' = rssi pkt \<and> channel pkt' = channel pkt \<and> crc_ok pkt' = crc_ok pkt
     \<and> (\<not> ((pdu_type pkt \<in> {0, 2, 6, 4} \<and> 12 \<le> length raw)
             \<or> (pdu_type pkt = 3 \<and> 18 \<le> length raw)
             \<or> (pdu_type pkt = 5 \<and> 40 \<le> length raw))
          \<longrightarrow> adv_address pkt' = adv_address pkt)
     \<and> (\<not> (pdu_type pkt = 3 \<and> 18 \<le> length raw)
          \<longrightarrow> scanner_address pkt' = scanner_address pkt)
     \<and> (\<not> (pdu_type pkt = 5 \<and> 40 \<le> length raw)
          \<longrightarrow> initiator_address pkt' = initiator_address pkt
              \<and> conn_access_addr pkt' = conn_access_addr pkt
              \<and> conn_crc_init pkt' = conn_crc_init pkt
              \<and> conn_interval pkt' = conn_interval pkt
              \<and> conn_latency pkt' = conn_latency pkt
              \<and> conn_timeout pkt' = conn_timeout pkt)
     \<and> (\<not> (pdu_type pkt \<in> {0, 2, 6, 4} \<and> 14 < length raw)
          \<longrightarrow> ad_structures pkt' = ad_structures pkt
              \<and> device_name pkt' = device_name pkt
              \<and> manufacturer pkt' = manufacturer pkt
              \<and> manufacturer_data pkt' = manufacturer_data pkt)
     \<and> (\<not> (pdu_type pkt \<in> {0, 2, 6} \<and> 14 < length raw)
          \<longrightarrow> tx_power pkt' = tx_power pkt
              \<and> flags pkt' = flags pkt
              \<and> service_uuids pkt' = service_uuids pkt)"
proof -
  obtain ss info where ad: "parse_ad_structures decode (adv_data_of raw) = Inr (ss, info)"
    using parse_ad_structures_total by blast
  consider (adv) "pdu_type pkt = 0 \<or> pdu_type pkt = 2 \<or> pdu_type pkt = 6"
    | (rsp) "pdu_type pkt = 4"
    | (req) "pdu_type pkt = 3"
    | (con) "pdu_type pkt = 5" "40 \<le> length raw"
    | (con_short) "pdu_type pkt = 5" "length raw < 40"
    | (other) "pdu_type pkt \<notin> {0, 2, 6, 4, 3, 5}"
    by fastforce
  then show ?thesis
  proof cases
    case adv
    then have "decode_body decode raw pkt = decode_adv decode raw pkt"
      by (simp add: decode_body_def)
    with adv ad show ?thesis
      by (auto simp: decode_adv_result)
  next
    case rsp
    then have "decode_body decode raw pkt = decode_scan_rsp decode raw pkt"
      by (simp add: decode_body_def)
    with rsp ad show ?thesis
      by (auto simp: decode_scan_rsp_result)
  next
    case req
    then have "decode_body decode raw pkt = decode_scan_req raw pkt"
      by (simp add: decode_body_def)
    with req show ?thesis
      by (auto simp: decode_scan_req_def)
  next
    case con
    then have "decode_body decode raw pkt = decode_connect_ind raw pkt"
      by (simp add: decode_body_def)
    with con show ?thesis
      by (simp add: decode_connect_ind_result)
  next
    case con_short
    then have "decode_body decode raw pkt = Inr pkt"
      by (simp add: decode_body_def decode_connect_ind_short)
    with con_short show ?thesis
      by simp
  next
    case other
    then have "decode_body decode raw pkt = Inr pkt"
      by (simp add: decode_body_def)
    with other show ?thesis
      by simp
  qed
qed

lemma parse_ble_packet_short:
  assumes "py_float_of_int ts = Inr ts_float" and "length raw < 6"
  shows "parse_ble_packet decode raw rn pn ts =
           Inr (BLEPacket rn pn ts (ts_float / 32) (length raw) raw)"
  using assms by (simp add: parse_ble_packet_def Let_def)

lemma parse_ble_packet_data:
  assumes "py_float_of_int ts = Inr ts_float" and "6 \<le> length raw"
    and "py_slice raw 0 4 \<noteq> BLE_ADV_ACCESS_ADDR"
  shows "parse_ble_packet decode raw rn pn ts =
           Inr ((BLEPacket rn pn ts (ts_float / 32) (length raw) raw)
                  \<lparr>access_address := bytes_hex (py_slice raw 0 4),
                   pdu_type_name := ''DATA_CHANNEL''\<rparr>)"
  using assms by (simp add: parse_ble_packet_def Let_def)

lemma parse_ble_packet_adv:
  assumes "py_float_of_int ts = Inr ts_float" and "6 \<le> length raw"
    and "py_slice raw 0 4 = BLE_ADV_ACCESS_ADDR"
  shows "parse_ble_packet decode raw rn pn ts =
           decode_body decode raw
             ((BLEPacket rn pn ts (ts_float / 32) (length raw) raw)
                \<lparr>access_address := bytes_hex (py_slice raw 0 4),
                 pdu_type := unat (raw ! 4 AND 0x0F),
                 pdu_type_name := get_pdu_type_name (unat (raw ! 4 AND 0x0F)),
                 tx_addr_type := (if drop_bit 6 (raw ! 4) AND 0x01 \<noteq> 0 then ''Random'' else ''Public''),
                 pdu_length := unat (raw ! 5 AND 0x3F),
                 rssi := rssi_of_raw (raw ! (length raw - 2)),
                 channel := unat (raw ! (length raw - 1) AND 0x3F),
                 crc_ok := (raw ! (length raw - 1) AND 0x80 \<noteq> 0)\<rparr>)"
proof -
  have two: "2 \<le> length raw"
    using assms(2) by simp
  show ?thesis
    using assms
    by (simp add: parse_ble_packet_def Let_def decode_pdu_header_result [OF assms(2)]
        decode_status_result [OF two])
qed

lemma low_six_bits: "unat ((w :: byte) AND 0x3F) = unat w mod 64"
proof -
  have "(0x3F :: byte) = mask 6"
    by (simp add: mask_eq_exp_minus_1)
  then have "w AND 0x3F = take_bit 6 w"
    by (simp add: take_bit_eq_mask)
  then show ?thesis
    by (simp add: take_bit_eq_mod unat_mod)
qed

lemma top_bit: "((w :: byte) AND 0x80 \<noteq> 0) = bit w 7"
proof -
  have "(0x80 :: byte) = 2 ^ 7"
    by simp
  then show ?thesis
    by (simp only: and_exp_eq_0_iff_not_bit) simp
qed

lemma py_slice_py_slice:
  assumes "a + d \<le> b"
  shows "py_slice (py_slice xs a b) c d = py_slice xs (a + c) (a + d)"
proof -
  have "py_slice (py_slice xs a b) c d = take (d - c) (take (b - a - c) (drop c (drop a xs)))"
    by (simp only: py_slice_def drop_take)
  also have "\<dots> = take (min (d - c) (b - a - c)) (drop (c + a) xs)"
    by (simp only: take_take drop_drop)
  also have "min (d - c) (b - a - c) = d - c"
    using assms by simp
  also have "c + a = a + c"
    by simp
  also have "d - c = (a + d) - (a + c)"
    by simp
  finally show ?thesis
    by (simp only: py_slice_def)
qed

text \<open>
  C7. A payload of fewer than 6 bytes gives a packet whose identity fields (record
  index, packet number, timestamp, timestamp in microseconds, payload length, raw
  payload) are set and whose other fields, access address and PDU type name included,
  are the defaults of the dataclass; nothing is raised. The timestamp is one that
  converts to a float, as every 8-byte timestamp of a record does.
\<close>

theorem short_payload_identity_only:
  assumes "length raw < 6" and "\<bar>ts\<bar> < 2 ^ 1023"
  shows "\<exists>ts_float. py_float_of_int ts = Inr ts_float
     \<and> parse_ble_packet decode raw rn pn ts =
         Inr \<lparr>record_num = rn, packet_num = pn, timestamp = ts, timestamp_us = ts_float / 32,
              payload_len = length raw, raw_payload = raw,
              access_address = '''', pdu_type = 0, pdu_type_name = '''', pdu_length = 0,
              tx_addr_type = '''',
              adv_address = '''', scanner_address = '''', initiator_address = '''',
              target_address = '''',
              device_name = [], manufacturer = '''', manufacturer_data = '''',
              tx_power = None, flags = [], service_uuids = [], ad_structures = [],
              rssi = 0, channel = 0, crc_ok = False,
              conn_access_addr = '''', conn_crc_init = '''', conn_interval = 0,
              conn_latency = 0, conn_timeout = 0\<rparr>"
proof -
  obtain ts_float where f: "py_float_of_int ts = Inr ts_float"
    using py_float_of_int_total [OF assms(2)] by blast
  have "parse_ble_packet decode raw rn pn ts =
          Inr (BLEPacket rn pn ts (ts_float / 32) (length raw) raw)"
    using f assms(1) by (rule parse_ble_packet_short)
  with f show ?thesis
    by (simp add: BLEPacket_def)
qed

theorem short_payload_identity_only_witness:
  "length [1, 2, 3, 4, 5 :: byte] < 6 \<and> \<bar>64 :: int\<bar> < 2 ^ 1023
   \<and> parse_ble_packet decode_ascii [1, 2, 3, 4, 5] 1 7 64 =
         Inr \<lparr>record_num = 1, packet_num = 7, timestamp = 64, timestamp_us = 2,
              payload_len = 5, raw_payload = [1, 2, 3, 4, 5],
              access_address = '''', pdu_type = 0, pdu_type_name = '''', pdu_length = 0,
              tx_addr_type = '''',
              adv_address = '''', scanner_address = '''', initiator_address = '''',
              target_address = '''',
              device_name = [], manufacturer = '''', manufacturer_data = '''',
              tx_power = None, flags = [], service_uuids = [], ad_structures = [],
              rssi = 0, channel = 0, crc_ok = False,
              conn_access_addr = '''', conn_crc_init = '''', conn_interval = 0,
              conn_latency = 0, conn_timeout = 0\<rparr>"
proof -
  have h1: "length [1, 2, 3, 4, 5 :: byte] < 6"
    by simp
  have h2: "\<bar>64 :: int\<bar> < 2 ^ 1023"
    by simp
  have e: "py_float_of_int 64 = Inr 64"
    using py_float_of_int_exact [of 64] by simp
  from short_payload_identity_only [OF h1 h2, of decode_ascii 1 7] e h1 h2 show ?thesis
    by auto
qed

text \<open>
  C8. A payload of at least 6 bytes whose first 4 bytes are not the advertising access
  address gives a packet with the identity fields, the access address (the hex dump of
  the 4 bytes) and the type name \<open>DATA_CHANNEL\<close>; every other field is the default
  of the dataclass.
\<close>

theorem data_channel_classification_only:
  assumes "6 \<le> length raw" and "py_slice raw 0 4 \<noteq> BLE_ADV_ACCESS_ADDR"
    and "\<bar>ts\<bar> < 2 ^ 1023"
  shows "\<exists>ts_float. py_float_of_int ts = Inr ts_float
     \<and> parse_ble_packet decode raw rn pn ts =
         Inr \<lparr>record_num = rn, packet_num = pn, timestamp = ts, timestamp_us = ts_float / 32,
              payload_len = length raw, raw_payload = raw,
              access_address = bytes_hex (py_slice raw 0 4), pdu_type = 0,
              pdu_type_name = ''DATA_CHANNEL'', pdu_length = 0,
              tx_addr_type = '''',
              adv_address = '''', scanner_address = '''', initiator_address = '''',
              target_address = '''',
              device_name = [], manufacturer = '''', manufacturer_data = '''',
              tx_power = None, flags = [], service_uuids = [], ad_structures = [],
              rssi = 0, channel = 0, crc_ok = False,
              conn_access_addr = '''', conn_crc_init = '''', conn_interval = 0,
              conn_latency = 0, conn_timeout = 0\<rparr>"
proof -
  obtain ts_float where f: "py_float_of_int ts = Inr ts_float"
    using py_float_of_int_total [OF assms(3)] by blast
  have "parse_ble_packet decode raw rn pn ts =
          Inr ((BLEPacket rn pn ts (ts_float / 32) (length raw) raw)
                 \<lparr>access_address := bytes_hex (py_slice raw 0 4),
                  pdu_type_name := ''DATA_CHANNEL''\<rparr>)"
    using f assms(1,2) by (rule parse_ble_packet_data)
  with f show ?thesis
    by (simp add: BLEPacket_def)
qed

theorem data_channel_classification_only_witness:
  "6 \<le> length [1, 2, 3, 4, 5, 6 :: byte]
   \<and> py_slice [1, 2, 3, 4, 5, 6 :: byte] 0 4 \<noteq> BLE_ADV_ACCESS_ADDR
   \<and> \<bar>64 :: int\<bar> < 2 ^ 1023
   \<and> parse_ble_packet decode_ascii [1, 2, 3, 4, 5, 6] 1 7 64 =
         Inr \<lparr>record_num = 1, packet_num = 7, timestamp = 64, timestamp_us = 2,
              payload_len = 6, raw_payload = [1, 2, 3, 4, 5, 6],
              access_address = ''01020304'', pdu_type = 0,
              pdu_type_name = ''DATA_CHANNEL'', pdu_length = 0,
              tx_addr_type = '''',
              adv_address = '''', scanner_address = '''', initiator_address = '''',
              target_address = '''',
              device_name = [], manufacturer = '''', manufacturer_data = '''',
              tx_power = None, flags = [], service_uuids = [], ad_structures = [],
              rssi = 0, channel = 0, crc_ok = False,
              conn_access_addr = '''', conn_crc_init = '''', conn_interval = 0,
              conn_latency = 0, conn_timeout = 0\<rparr>"
proof -
  have h1: "6 \<le> length [1, 2, 3, 4, 5, 6 :: byte]"
    by simp
  have h2: "py_slice [1, 2, 3, 4, 5, 6 :: byte] 0 4 \<noteq> BLE_ADV_ACCESS_ADDR"
    by (simp add: py_slice_def BLE_ADV_ACCESS_ADDR_def)
  have h3: "\<bar>64 :: int\<bar> < 2 ^ 1023"
    by simp
  have e: "py_float_of_int 64 = Inr 64"
    using py_float_of_int_exact [of 64] by simp
  have hx: "bytes_hex (py_slice [1, 2, 3, 4, 5, 6 :: byte] 0 4) = ''01020304''"
    by code_simp
  from data_channel_classification_only [OF h1 h2 h3, of decode_ascii 1 7] e h1 h2 h3 hx
  show ?thesis
    by auto
qed

text \<open>
  C3. For an advertising-channel payload (at least 6 bytes, the first 4 equal to
  \<open>D6 BE 89 8E\<close>) the decoder returns a packet whose RSSI is
  \<open>(b - 256 if b > 127 else b) - 73\<close> for the second-to-last byte \<open>b\<close>, whose
  channel is the low 6 bits of the last byte and whose CRC flag is the top bit of the
  last byte. The raw byte \<open>0x00\<close> gives \<open>-73\<close> and \<open>0x80\<close> gives \<open>-201\<close>.
\<close>

theorem advertising_rssi_channel_crc:
  assumes "6 \<le> length raw" and "py_slice raw 0 4 = BLE_ADV_ACCESS_ADDR"
    and "\<bar>ts\<bar> < 2 ^ 1023"
  shows "\<exists>pkt. parse_ble_packet decode raw rn pn ts = Inr pkt
     \<and> rssi pkt =
         (let b = int (unat (raw ! (length raw - 2))) in (if 127 < b then b - 256 else b) - 73)
     \<and> channel pkt = unat (raw ! (length raw - 1)) mod 64
     \<and> crc_ok pkt = bit (raw ! (length raw - 1)) 7
     \<and> rssi_of_raw 0x00 = - 73 \<and> rssi_of_raw 0x80 = - 201"
proof -
  obtain ts_float where f: "py_float_of_int ts = Inr ts_float"
    using py_float_of_int_total [OF assms(3)] by blast
  let ?hp = "(BLEPacket rn pn ts (ts_float / 32) (length raw) raw)
                \<lparr>access_address := bytes_hex (py_slice raw 0 4),
                 pdu_type := unat (raw ! 4 AND 0x0F),
                 pdu_type_name := get_pdu_type_name (unat (raw ! 4 AND 0x0F)),
                 tx_addr_type := (if drop_bit 6 (raw ! 4) AND 0x01 \<noteq> 0 then ''Random'' else ''Public''),
                 pdu_length := unat (raw ! 5 AND 0x3F),
                 rssi := rssi_of_raw (raw ! (length raw - 2)),
                 channel := unat (raw ! (length raw - 1) AND 0x3F),
                 crc_ok := (raw ! (length raw - 1) AND 0x80 \<noteq> 0)\<rparr>"
  have run: "parse_ble_packet decode raw rn pn ts = decode_body decode raw ?hp"
    using f assms(1,2) by (rule parse_ble_packet_adv)
  obtain pkt where body: "decode_body decode raw ?hp = Inr pkt"
    and keep: "rssi pkt = rssi ?hp" "channel pkt = channel ?hp" "crc_ok pkt = crc_ok ?hp"
    using decode_body_frame [of decode raw ?hp] by blast
  have aux: "(if 127 < n then int n - 256 else int n) - 73 =
               (let b = int n in (if 127 < b then b - 256 else b) - 73)" for n :: nat
    by (simp add: Let_def)
  have "rssi pkt = rssi_of_raw (raw ! (length raw - 2))"
    using keep(1) by simp
  then have "rssi pkt =
         (let b = int (unat (raw ! (length raw - 2))) in (if 127 < b then b - 256 else b) - 73)"
    by (simp only: rssi_of_raw_def aux)
  moreover have "channel pkt = unat (raw ! (length raw - 1)) mod 64"
    using keep(2) by (simp add: low_six_bits)
  moreover have "crc_ok pkt = bit (raw ! (length raw - 1)) 7"
    using keep(3) by (simp add: top_bit)
  moreover have "rssi_of_raw 0x00 = - 73" "rssi_of_raw 0x80 = - 201"
    by (simp_all add: rssi_of_raw_def)
  ultimately show ?thesis
    using run body by simp
qed

theorem advertising_rssi_channel_crc_witness:
  "6 \<le> length [0xd6, 0xbe, 0x89, 0x8e, 0x00, 0x00, 0x80, 0xA5 :: byte]
   \<and> py_slice [0xd6, 0xbe, 0x89, 0x8e, 0x00, 0x00, 0x80, 0xA5 :: byte] 0 4 = BLE_ADV_ACCESS_ADDR
   \<and> \<bar>64 :: int\<bar> < 2 ^ 1023
   \<and> (\<exists>pkt. parse_ble_packet decode_ascii [0xd6, 0xbe, 0x89, 0x8e, 0x00, 0x00, 0x80, 0xA5] 1 7 64
               = Inr pkt
          \<and> rssi pkt = - 201 \<and> channel pkt = 37 \<and> crc_ok pkt)"
proof -
  have h1: "6 \<le> length [0xd6, 0xbe, 0x89, 0x8e, 0x00, 0x00, 0x80, 0xA5 :: byte]"
    by simp
  have h2: "py_slice [0xd6, 0xbe, 0x89, 0x8e, 0x00, 0x00, 0x80, 0xA5 :: byte] 0 4 = BLE_ADV_ACCESS_ADDR"
    by (simp add: py_slice_def BLE_ADV_ACCESS_ADDR_def)
  have h3: "\<bar>64 :: int\<bar> < 2 ^ 1023"
    by simp
  have b: "bit (0xA5 :: byte) 7"
    by (simp add: bit_iff_odd_drop_bit)
  from advertising_rssi_channel_crc [OF h1 h2 h3, of decode_ascii 1 7] h1 h2 h3 b
  show ?thesis
    by (auto simp: Let_def)
qed

lemma bytes_to_mac_six:
  "bytes_to_mac [a, b, c, d, e, f] =
     format_X 2 (unat f) @ '':'' @ format_X 2 (unat e) @ '':'' @ format_X 2 (unat d) @ '':'' @
     format_X 2 (unat c) @ '':'' @ format_X 2 (unat b) @ '':'' @ format_X 2 (unat a)"
  by (simp add: bytes_to_mac_def)

text \<open>
  C4. For an advertising payload of at least 40 bytes whose header byte has PDU type
  \<open>0x05\<close>, the decoder sets the initiator address from bytes 6..12 and the address
  of the advertiser (the target of the connection, kept in the field
  \<open>adv_address\<close>) from bytes 12..18, each reversed and printed as colon-separated
  hex; the connection access address from bytes 18..22 reversed; the CRC-init from
  bytes 22..25 in forward order; the interval as the little-endian 16-bit value at
  bytes 28..30 times 1.25 (so \<open>0x0010\<close> gives 20); the latency as the value at bytes
  30..32; the timeout as the value at bytes 32..34 times 10.
\<close>

theorem connect_ind_fields:
  assumes "40 \<le> length raw" and "py_slice raw 0 4 = BLE_ADV_ACCESS_ADDR"
    and "header_type raw = 5" and "\<bar>ts\<bar> < 2 ^ 1023"
  shows "\<exists>pkt. parse_ble_packet decode raw rn pn ts = Inr pkt
     \<and> initiator_address pkt = bytes_to_mac (py_slice raw 6 12)
     \<and> adv_address pkt = bytes_to_mac (py_slice raw 12 18)
     \<and> conn_access_addr pkt = bytes_hex (rev (py_slice raw 18 22))
     \<and> conn_crc_init pkt = bytes_hex (py_slice raw 22 25)
     \<and> conn_interval pkt = of_nat (unat (raw ! 28) + 256 * unat (raw ! 29)) * (5 / 4)
     \<and> conn_latency pkt = unat (raw ! 30) + 256 * unat (raw ! 31)
     \<and> conn_timeout pkt = of_nat (unat (raw ! 32) + 256 * unat (raw ! 33)) * 10
     \<and> (raw ! 28 = 0x10 \<and> raw ! 29 = 0x00 \<longrightarrow> conn_interval pkt = 20)"
proof -
  obtain ts_float where f: "py_float_of_int ts = Inr ts_float"
    using py_float_of_int_total [OF assms(4)] by blast
  let ?hp = "(BLEPacket rn pn ts (ts_float / 32) (length raw) raw)
                \<lparr>access_address := bytes_hex (py_slice raw 0 4),
                 pdu_type := unat (raw ! 4 AND 0x0F),
                 pdu_type_name := get_pdu_type_name (unat (raw ! 4 AND 0x0F)),
                 tx_addr_type := (if drop_bit 6 (raw ! 4) AND 0x01 \<noteq> 0 then ''Random'' else ''Public''),
                 pdu_length := unat (raw ! 5 AND 0x3F),
                 rssi := rssi_of_raw (raw ! (length raw - 2)),
                 channel := unat (raw ! (length raw - 1) AND 0x3F),
                 crc_ok := (raw ! (length raw - 1) AND 0x80 \<noteq> 0)\<rparr>"
  have six: "6 \<le> length raw"
    using assms(1) by simp
  have run: "parse_ble_packet decode raw rn pn ts = decode_body decode raw ?hp"
    using f six assms(2) by (rule parse_ble_packet_adv)
  have ty: "pdu_type ?hp = 5"
    using assms(3) by (simp add: header_type_def)
  have body: "decode_body decode raw ?hp = decode_connect_ind raw ?hp"
    by (simp only: decode_body_def ty) simp
  have aa: "py_slice (py_slice raw 18 40) 0 4 = py_slice raw 18 22"
    using py_slice_py_slice [of 18 4 40 raw 0] by simp
  have crc: "py_slice (py_slice raw 18 40) 4 7 = py_slice raw 22 25"
    using py_slice_py_slice [of 18 7 40 raw 4] by simp
  show ?thesis
    unfolding run body decode_connect_ind_result [OF assms(1)] aa crc
    by simp
qed

theorem connect_ind_fields_witness:
  "40 \<le> length [0xd6, 0xbe, 0x89, 0x8e, 0x05, 0x22, 1, 2, 3, 4, 5, 6, 0x11, 0x12, 0x13, 0x14, 0x15, 0x16, 0xA1, 0xA2, 0xA3, 0xA4, 0xC1, 0xC2, 0xC3, 0x02, 0x00, 0x00, 0x10, 0x00, 0x00, 0x00, 0x64, 0x00, 0xFF, 0xFF, 0xFF, 0xFF, 0x1F, 0x05 :: byte]
   \<and> py_slice [0xd6, 0xbe, 0x89, 0x8e, 0x05, 0x22, 1, 2, 3, 4, 5, 6, 0x11, 0x12, 0x13, 0x14, 0x15, 0x16, 0xA1, 0xA2, 0xA3, 0xA4, 0xC1, 0xC2, 0xC3, 0x02, 0x00, 0x00, 0x10, 0x00, 0x00, 0x00, 0x64, 0x00, 0xFF, 0xFF, 0xFF, 0xFF, 0x1F, 0x05 :: byte] 0 4 = BLE_ADV_ACCESS_ADDR
   \<and> header_type [0xd6, 0xbe, 0x89, 0x8e, 0x05, 0x22, 1, 2, 3, 4, 5, 6, 0x11, 0x12, 0x13, 0x14, 0x15, 0x16, 0xA1, 0xA2, 0xA3, 0xA4, 0xC1, 0xC2, 0xC3, 0x02, 0x00, 0x00, 0x10, 0x00, 0x00, 0x00, 0x64, 0x00, 0xFF, 0xFF, 0xFF, 0xFF, 0x1F, 0x05 :: byte] = 5
   \<and> \<bar>64 :: int\<bar> < 2 ^ 1023
   \<and> (\<exists>pkt. parse_ble_packet decode_ascii [0xd6, 0xbe, 0x89, 0x8e, 0x05, 0x22, 1, 2, 3, 4, 5, 6, 0x11, 0x12, 0x13, 0x14, 0x15, 0x16, 0xA1, 0xA2, 0xA3, 0xA4, 0xC1, 0xC2, 0xC3, 0x02, 0x00, 0x00, 0x10, 0x00, 0x00, 0x00, 0x64, 0x00, 0xFF, 0xFF, 0xFF, 0xFF, 0x1F, 0x05 :: byte] 1 7 64 = Inr pkt
          \<and> initiator_address pkt = ''06:05:04:03:02:01''
          \<and> adv_address pkt = ''16:15:14:13:12:11''
          \<and> conn_access_addr pkt = ''a4a3a2a1''
          \<and> conn_crc_init pkt = ''c1c2c3''
          \<and> conn_interval pkt = 20
          \<and> conn_latency pkt = 0
          \<and> conn_timeout pkt = 1000)"
proof -
  have h1: "40 \<le> length [0xd6, 0xbe, 0x89, 0x8e, 0x05, 0x22, 1, 2, 3, 4, 5, 6, 0x11, 0x12, 0x13, 0x14, 0x15, 0x16, 0xA1, 0xA2, 0xA3, 0xA4, 0xC1, 0xC2, 0xC3, 0x02, 0x00, 0x00, 0x10, 0x00, 0x00, 0x00, 0x64, 0x00, 0xFF, 0xFF, 0xFF, 0xFF, 0x1F, 0x05 :: byte]"
    by simp
  have h2: "py_slice [0xd6, 0xbe, 0x89, 0x8e, 0x05, 0x22, 1, 2, 3, 4, 5, 6, 0x11, 0x12, 0x13, 0x14, 0x15, 0x16, 0xA1, 0xA2, 0xA3, 0xA4, 0xC1, 0xC2, 0xC3, 0x02, 0x00, 0x00, 0x10, 0x00, 0x00, 0x00, 0x64, 0x00, 0xFF, 0xFF, 0xFF, 0xFF, 0x1F, 0x05 :: byte] 0 4 = BLE_ADV_ACCESS_ADDR"
    by (simp add: py_slice_def BLE_ADV_ACCESS_ADDR_def)
  have h3: "header_type [0xd6, 0xbe, 0x89, 0x8e, 0x05, 0x22, 1, 2, 3, 4, 5, 6, 0x11, 0x12, 0x13, 0x14, 0x15, 0x16, 0xA1, 0xA2, 0xA3, 0xA4, 0xC1, 0xC2, 0xC3, 0x02, 0x00, 0x00, 0x10, 0x00, 0x00, 0x00, 0x64, 0x00, 0xFF, 0xFF, 0xFF, 0xFF, 0x1F, 0x05 :: byte] = 5"
    by (simp add: header_type_def)
  have h4: "\<bar>64 :: int\<bar> < 2 ^ 1023"
    by simp
  have e1: "bytes_to_mac (py_slice [0xd6, 0xbe, 0x89, 0x8e, 0x05, 0x22, 1, 2, 3, 4, 5, 6, 0x11, 0x12, 0x13, 0x14, 0x15, 0x16, 0xA1, 0xA2, 0xA3, 0xA4, 0xC1, 0xC2, 0xC3, 0x02, 0x00, 0x00, 0x10, 0x00, 0x00, 0x00, 0x64, 0x00, 0xFF, 0xFF, 0xFF, 0xFF, 0x1F, 0x05 :: byte] 6 12) = ''06:05:04:03:02:01''"
    by code_simp
  have e2: "bytes_to_mac (py_slice [0xd6, 0xbe, 0x89, 0x8e, 0x05, 0x22, 1, 2, 3, 4, 5, 6, 0x11, 0x12, 0x13, 0x14, 0x15, 0x16, 0xA1, 0xA2, 0xA3, 0xA4, 0xC1, 0xC2, 0xC3, 0x02, 0x00, 0x00, 0x10, 0x00, 0x00, 0x00, 0x64, 0x00, 0xFF, 0xFF, 0xFF, 0xFF, 0x1F, 0x05 :: byte] 12 18) = ''16:15:14:13:12:11''"
    by code_simp
  have e3: "bytes_hex (rev (py_slice [0xd6, 0xbe, 0x89, 0x8e, 0x05, 0x22, 1, 2, 3, 4, 5, 6, 0x11, 0x12, 0x13, 0x14, 0x15, 0x16, 0xA1, 0xA2, 0xA3, 0xA4, 0xC1, 0xC2, 0xC3, 0x02, 0x00, 0x00, 0x10, 0x00, 0x00, 0x00, 0x64, 0x00, 0xFF, 0xFF, 0xFF, 0xFF, 0x1F, 0x05 :: byte] 18 22)) = ''a4a3a2a1''"
    by code_simp
  have e4: "bytes_hex (py_slice [0xd6, 0xbe, 0x89, 0x8e, 0x05, 0x22, 1, 2, 3, 4, 5, 6, 0x11, 0x12, 0x13, 0x14, 0x15, 0x16, 0xA1, 0xA2, 0xA3, 0xA4, 0xC1, 0xC2, 0xC3, 0x02, 0x00, 0x00, 0x10, 0x00, 0x00, 0x00, 0x64, 0x00, 0xFF, 0xFF, 0xFF, 0xFF, 0x1F, 0x05 :: byte] 22 25) = ''c1c2c3''"
    by code_simp
  from connect_ind_fields [OF h1 h2 h3 h4, of decode_ascii 1 7] h1 h2 h3 h4
  show ?thesis
    unfolding e1 e2 e3 e4 by auto
qed

text \<open>
  C2. For every payload (any length, any bytes) and every timestamp that converts to a
  float, as every 8-byte timestamp of a record does, the decoder returns a packet and
  raises nothing. The identity fields are set; \<open>target_address\<close> is always empty;
  every other field holds its dataclass default (zero, empty string, empty list,
  \<open>False\<close>, \<open>None\<close>) unless the payload takes the path that writes it: the access
  address from 6 bytes on, the header and status fields on the advertising channel,
  and the addresses, the advertising data and the connection parameters for the PDU
  types and the minimum lengths that carry them.
\<close>

theorem parse_ble_packet_never_raises:
  assumes "\<bar>ts\<bar> < 2 ^ 1023"
  shows "\<exists>pkt ts_float. parse_ble_packet decode raw rn pn ts = Inr pkt
     \<and> py_float_of_int ts = Inr ts_float
     \<and> record_num pkt = rn \<and> packet_num pkt = pn \<and> timestamp pkt = ts
     \<and> timestamp_us pkt = ts_float / 32
     \<and> payload_len pkt = length raw \<and> raw_payload pkt = raw
     \<and> target_address pkt = ''''
     \<and> (length raw < 6 \<longrightarrow> access_address pkt = '''' \<and> pdu_type_name pkt = '''')
     \<and> (\<not> is_advertising raw \<longrightarrow>
            pdu_type pkt = 0 \<and> pdu_length pkt = 0 \<and> tx_addr_type pkt = ''''
          \<and> rssi pkt = 0 \<and> channel pkt = 0 \<and> \<not> crc_ok pkt)
     \<and> (\<not> (is_advertising raw
             \<and> ((header_type raw \<in> {0, 2, 6, 4} \<and> 12 \<le> length raw)
                 \<or> (header_type raw = 3 \<and> 18 \<le> length raw)
                 \<or> (header_type raw = 5 \<and> 40 \<le> length raw)))
          \<longrightarrow> adv_address pkt = '''')
     \<and> (\<not> (is_advertising raw \<and> header_type raw = 3 \<and> 18 \<le> length raw)
          \<longrightarrow> scanner_address pkt = '''')
     \<and> (\<not> (is_advertising raw \<and> header_type raw = 5 \<and> 40 \<le> length raw)
          \<longrightarrow> initiator_address pkt = '''' \<and> conn_access_addr pkt = ''''
              \<and> conn_crc_init pkt = '''' \<and> conn_interval pkt = 0
              \<and> conn_latency pkt = 0 \<and> conn_timeout pkt = 0)
     \<and> (\<not> (is_advertising raw \<and> header_type raw \<in> {0, 2, 6, 4} \<and> 14 < length raw)
          \<longrightarrow> ad_structures pkt = [] \<and> device_name pkt = []
              \<and> manufacturer pkt = '''' \<and> manufacturer_data pkt = '''')
     \<and> (\<not> (is_advertising raw \<and> header_type raw \<in> {0, 2, 6} \<and> 14 < length raw)
          \<longrightarrow> tx_power pkt = None \<and> flags pkt = [] \<and> service_uuids pkt = [])"
proof -
  obtain ts_float where f: "py_float_of_int ts = Inr ts_float"
    using py_float_of_int_total [OF assms] by blast
  consider (short) "length raw < 6"
    | (data) "6 \<le> length raw" "py_slice raw 0 4 \<noteq> BLE_ADV_ACCESS_ADDR"
    | (adv) "6 \<le> length raw" "py_slice raw 0 4 = BLE_ADV_ACCESS_ADDR"
    by force
  then show ?thesis
  proof cases
    case short
    have "parse_ble_packet decode raw rn pn ts =
            Inr (BLEPacket rn pn ts (ts_float / 32) (length raw) raw)"
      using f short by (rule parse_ble_packet_short)
    with f short show ?thesis
      by (simp add: BLEPacket_def is_advertising_def)
  next
    case data
    have "parse_ble_packet decode raw rn pn ts =
            Inr ((BLEPacket rn pn ts (ts_float / 32) (length raw) raw)
                   \<lparr>access_address := bytes_hex (py_slice raw 0 4),
                    pdu_type_name := ''DATA_CHANNEL''\<rparr>)"
      using f data by (rule parse_ble_packet_data)
    with f data show ?thesis
      by (simp add: BLEPacket_def is_advertising_def)
  next
    case adv
    let ?hp = "(BLEPacket rn pn ts (ts_float / 32) (length raw) raw)
                  \<lparr>access_address := bytes_hex (py_slice raw 0 4),
                   pdu_type := unat (raw ! 4 AND 0x0F),
                   pdu_type_name := get_pdu_type_name (unat (raw ! 4 AND 0x0F)),
                   tx_addr_type := (if drop_bit 6 (raw ! 4) AND 0x01 \<noteq> 0 then ''Random'' else ''Public''),
                   pdu_length := unat (raw ! 5 AND 0x3F),
                   rssi := rssi_of_raw (raw ! (length raw - 2)),
                   channel := unat (raw ! (length raw - 1) AND 0x3F),
                   crc_ok := (raw ! (length raw - 1) AND 0x80 \<noteq> 0)\<rparr>"
    have run: "parse_ble_packet decode raw rn pn ts = decode_body decode raw ?hp"
      using f adv by (rule parse_ble_packet_adv)
    have ty: "pdu_type ?hp = header_type raw"
      by (simp add: header_type_def)
    have is_adv: "is_advertising raw"
      using adv by (simp add: is_advertising_def)
    from decode_body_frame [of decode raw ?hp]
    obtain pkt where pkt: "decode_body decode raw ?hp = Inr pkt"
      and frame:
        "record_num pkt = record_num ?hp" "packet_num pkt = packet_num ?hp"
        "timestamp pkt = timestamp ?hp" "timestamp_us pkt = timestamp_us ?hp"
        "payload_len pkt = payload_len ?hp" "raw_payload pkt = raw_payload ?hp"
        "target_address pkt = target_address ?hp"
      and a: "\<not> ((pdu_type ?hp \<in> {0, 2, 6, 4} \<and> 12 \<le> length raw)
                 \<or> (pdu_type ?hp = 3 \<and> 18 \<le> length raw)
                 \<or> (pdu_type ?hp = 5 \<and> 40 \<le> length raw))
              \<longrightarrow> adv_address pkt = adv_address ?hp"
      and s: "\<not> (pdu_type ?hp = 3 \<and> 18 \<le> length raw)
              \<longrightarrow> scanner_address pkt = scanner_address ?hp"
      and c: "\<not> (pdu_type ?hp = 5 \<and> 40 \<le> length raw)
              \<longrightarrow> initiator_address pkt = initiator_address ?hp
                  \<and> conn_access_addr pkt = conn_access_addr ?hp
                  \<and> conn_crc_init pkt = conn_crc_init ?hp
                  \<and> conn_interval pkt = conn_interval ?hp
                  \<and> conn_latency pkt = conn_latency ?hp
                  \<and> conn_timeout pkt = conn_timeout ?hp"
      and d: "\<not> (pdu_type ?hp \<in> {0, 2, 6, 4} \<and> 14 < length raw)
              \<longrightarrow> ad_structures pkt = ad_structures ?hp
                  \<and> device_name pkt = device_name ?hp
                  \<and> manufacturer pkt = manufacturer ?hp
                  \<and> manufacturer_data pkt = manufacturer_data ?hp"
      and t: "\<not> (pdu_type ?hp \<in> {0, 2, 6} \<and> 14 < length raw)
              \<longrightarrow> tx_power pkt = tx_power ?hp
                  \<and> flags pkt = flags ?hp
                  \<and> service_uuids pkt = service_uuids ?hp"
      by blast
    have ident: "record_num pkt = rn" "packet_num pkt = pn" "timestamp pkt = ts"
      "timestamp_us pkt = ts_float / 32" "payload_len pkt = length raw" "raw_payload pkt = raw"
      "target_address pkt = ''''"
      using frame by (simp_all add: BLEPacket_def)
    have a': "\<not> ((header_type raw \<in> {0, 2, 6, 4} \<and> 12 \<le> length raw)
                 \<or> (header_type raw = 3 \<and> 18 \<le> length raw)
                 \<or> (header_type raw = 5 \<and> 40 \<le> length raw))
              \<longrightarrow> adv_address pkt = ''''"
      using a unfolding ty by (simp add: BLEPacket_def)
    have s': "\<not> (header_type raw = 3 \<and> 18 \<le> length raw) \<longrightarrow> scanner_address pkt = ''''"
      using s unfolding ty by (simp add: BLEPacket_def)
    have c': "\<not> (header_type raw = 5 \<and> 40 \<le> length raw)
              \<longrightarrow> initiator_address pkt = '''' \<and> conn_access_addr pkt = ''''
                  \<and> conn_crc_init pkt = '''' \<and> conn_interval pkt = 0
                  \<and> conn_latency pkt = 0 \<and> conn_timeout pkt = 0"
      using c unfolding ty by (simp add: BLEPacket_def)
    have d': "\<not> (header_type raw \<in> {0, 2, 6, 4} \<and> 14 < length raw)
              \<longrightarrow> ad_structures pkt = [] \<and> device_name pkt = []
                  \<and> manufacturer pkt = '''' \<and> manufacturer_data pkt = ''''"
      using d unfolding ty by (simp add: BLEPacket_def)
    have t': "\<not> (header_type raw \<in> {0, 2, 6} \<and> 14 < length raw)
              \<longrightarrow> tx_power pkt = None \<and> flags pkt = [] \<and> service_uuids pkt = []"
      using t unfolding ty by (simp add: BLEPacket_def)
    show ?thesis
      using run pkt f ident a' s' c' d' t' is_adv adv(1)
      by (intro exI [of _ pkt] exI [of _ ts_float]) simp
  qed
qed

theorem parse_ble_packet_never_raises_witness:
  "\<bar>64 :: int\<bar> < 2 ^ 1023
   \<and> (\<exists>pkt. parse_ble_packet decode_ascii [1, 2, 3] 1 7 64 = Inr pkt
          \<and> record_num pkt = 1 \<and> packet_num pkt = 7 \<and> timestamp pkt = 64
          \<and> payload_len pkt = 3 \<and> raw_payload pkt = [1, 2, 3]
          \<and> target_address pkt = '''' \<and> access_address pkt = ''''
          \<and> rssi pkt = 0 \<and> tx_power pkt = None)"
proof -
  have h: "\<bar>64 :: int\<bar> < 2 ^ 1023"
    by simp
  have n: "\<not> is_advertising [1, 2, 3]"
    by (simp add: is_advertising_def)
  from parse_ble_packet_never_raises [OF h, of decode_ascii "[1, 2, 3]" 1 7] h n
  show ?thesis
    by auto
qed

section \<open>Reading a capture: properties\<close>

lemma le_value_bound: "le_value bs < 256 ^ length bs"
proof (induction bs)
  case Nil
  show ?case by simp
next
  case (Cons b bs)
  have "unat b < 256"
    using unsigned_less [of b, where ?'a = nat] by simp
  moreover have "le_value bs + 1 \<le> 256 ^ length bs"
    using Cons.IH by simp
  then have "256 * (le_value bs + 1) \<le> 256 * 256 ^ length bs"
    by (rule mult_le_mono2)
  ultimately show ?case
    by simp
qed

lemma decode_body_total: "\<exists>pkt'. decode_body decode raw pkt = Inr pkt'"
  using decode_body_frame [of decode raw pkt] by blast

lemma parse_ble_packet_returns:
  assumes "\<bar>ts\<bar> < 2 ^ 1023"
  shows "\<exists>pkt. parse_ble_packet decode raw rn pn ts = Inr pkt"
proof -
  obtain ts_float where f: "py_float_of_int ts = Inr ts_float"
    using py_float_of_int_total [OF assms] by blast
  consider (short) "length raw < 6"
    | (data) "6 \<le> length raw" "py_slice raw 0 4 \<noteq> BLE_ADV_ACCESS_ADDR"
    | (adv) "6 \<le> length raw" "py_slice raw 0 4 = BLE_ADV_ACCESS_ADDR"
    by force
  then show ?thesis
  proof cases
    case short
    then show ?thesis
      using parse_ble_packet_short [OF f] by blast
  next
    case data
    then show ?thesis
      using parse_ble_packet_data [OF f] by blast
  next
    case adv
    then show ?thesis
      by (simp only: parse_ble_packet_adv [OF f adv] decode_body_total)
  qed
qed

lemma record_timestamp_small: "\<bar>int (record_timestamp data k)\<bar> < 2 ^ 1023"
proof -
  have "length (py_slice data (k * RECORD_SIZE + 5) (k * RECORD_SIZE + 13)) \<le> 8"
    by (simp add: length_slice)
  then have "(256::nat) ^ length (py_slice data (k * RECORD_SIZE + 5) (k * RECORD_SIZE + 13)) \<le> 256 ^ 8"
    by (intro power_increasing) simp_all
  then have "record_timestamp data k < 256 ^ 8"
    unfolding record_timestamp_def
    using le_value_bound [of "py_slice data (k * RECORD_SIZE + 5) (k * RECORD_SIZE + 13)"]
    by (rule less_le_trans [rotated])
  then have "int (record_timestamp data k) < 2 ^ 64"
    by simp
  moreover have "(2::int) ^ 64 < 2 ^ 1023"
    by (simp only: power_strict_increasing_iff one_less_numeral_iff semiring_norm)
  ultimately have "int (record_timestamp data k) < 2 ^ 1023"
    by (rule less_trans)
  then show ?thesis
    by simp
qed

lemma parse_record_result:
  assumes "k < length data div RECORD_SIZE"
  shows "parse_record decode data k =
     (if 4 \<le> length (record_payload data k) then
        bindE (parse_ble_packet decode (record_payload data k) (int k + 1)
                 (int (record_packet_num data k)) (int (record_timestamp data k)))
          (\<lambda>pkt. Inr [pkt])
      else Inr [])"
proof -
  let ?off = "k * RECORD_SIZE"
  have inside: "?off + 271 \<le> length data"
    using record_within_buffer [OF assms] by (simp add: RECORD_SIZE_def)
  have a: "idx data (int ?off) = Inr (data ! ?off)"
    using idx_in_range [of ?off data] inside by simp
  have b: "unpack_le 4 (py_slice data (?off + 1) (?off + 5)) = Inr (record_packet_num data k)"
    unfolding record_packet_num_def using inside
    by (intro unpack_le_exact) (simp add: length_slice)
  have c: "unpack_le 8 (py_slice data (?off + 5) (?off + 13)) = Inr (record_timestamp data k)"
    unfolding record_timestamp_def using inside
    by (intro unpack_le_exact) (simp add: length_slice)
  have d: "\<exists>v. unpack_le 2 (py_slice data (?off + 13) (?off + 15)) = Inr v"
    using inside by (simp add: unpack_le_def length_slice)
  have "idx data (int ?off + 15) = Inr (data ! (?off + 15))"
    using idx_in_range [of "?off + 15" data] inside by simp
  then have e: "extract_payload data ?off = Inr (record_payload data k)"
    by (simp add: extract_payload_def record_payload_def)
  from d obtain v where d': "unpack_le 2 (py_slice data (?off + 13) (?off + 15)) = Inr v"
    by blast
  show ?thesis
    unfolding parse_record_def Let_def a b c d' e bindE_Inr
    by (rule refl)
qed

lemma psd_loop_result:
  assumes "\<forall>k \<in> set ks. k < length data div RECORD_SIZE"
  shows "\<exists>new. psd_loop decode data ks acc = Inr (acc @ new)
     \<and> map Inr new =
         map (\<lambda>k. parse_ble_packet decode (record_payload data k) (int k + 1)
                     (int (record_packet_num data k)) (int (record_timestamp data k)))
           (filter (\<lambda>k. 4 \<le> length (record_payload data k)) ks)"
  using assms
proof (induction ks arbitrary: acc)
  case Nil
  show ?case by simp
next
  case (Cons k ks)
  have k: "k < length data div RECORD_SIZE"
    using Cons.prems by simp
  have rest: "\<forall>k \<in> set ks. k < length data div RECORD_SIZE"
    using Cons.prems by simp
  obtain pkt where pkt:
    "parse_ble_packet decode (record_payload data k) (int k + 1)
       (int (record_packet_num data k)) (int (record_timestamp data k)) = Inr pkt"
    using parse_ble_packet_returns [OF record_timestamp_small] by blast
  show ?case
  proof (cases "4 \<le> length (record_payload data k)")
    case True
    then have step: "parse_record decode data k = Inr [pkt]"
      by (simp add: parse_record_result [OF k] pkt)
    obtain new where new: "psd_loop decode data ks (acc @ [pkt]) = Inr ((acc @ [pkt]) @ new)"
      and eq: "map Inr new =
         map (\<lambda>k. parse_ble_packet decode (record_payload data k) (int k + 1)
                     (int (record_packet_num data k)) (int (record_timestamp data k)))
           (filter (\<lambda>k. 4 \<le> length (record_payload data k)) ks)"
      using Cons.IH [OF rest, of "acc @ [pkt]"] by blast
    show ?thesis
      using True step new eq pkt by (intro exI [of _ "pkt # new"]) simp
  next
    case False
    then have step: "parse_record decode data k = Inr []"
      by (simp add: parse_record_result [OF k])
    obtain new where new: "psd_loop decode data ks acc = Inr (acc @ new)"
      and eq: "map Inr new =
         map (\<lambda>k. parse_ble_packet decode (record_payload data k) (int k + 1)
                     (int (record_packet_num data k)) (int (record_timestamp data k)))
           (filter (\<lambda>k. 4 \<le> length (record_payload data k)) ks)"
      using Cons.IH [OF rest, of acc] by blast
    show ?thesis
      using False step new eq by (intro exI [of _ new]) simp
  qed
qed

lemma parse_psd_file_result:
  "\<exists>pkts. parse_psd_file decode data = Inr pkts
     \<and> map Inr pkts =
         map (\<lambda>k. parse_ble_packet decode (record_payload data k) (int k + 1)
                     (int (record_packet_num data k)) (int (record_timestamp data k)))
           (filter (\<lambda>k. 4 \<le> length (record_payload data k)) [0..<length data div RECORD_SIZE])"
  using psd_loop_result [of "[0..<length data div RECORD_SIZE]" data decode "[]"]
  by (simp add: parse_psd_file_def)

lemma record_payload_length:
  assumes "k < length data div RECORD_SIZE"
  shows "length (record_payload data k) = unat (data ! (k * RECORD_SIZE + 15))"
proof -
  have inside: "k * RECORD_SIZE + 271 \<le> length data"
    using record_within_buffer [OF assms] by (simp add: RECORD_SIZE_def)
  have "unat (data ! (k * RECORD_SIZE + 15)) \<le> 255"
    using unsigned_less [of "data ! (k * RECORD_SIZE + 15)", where ?'a = nat] by simp
  with inside show ?thesis
    by (simp add: record_payload_def length_slice)
qed

lemma py_slice_take:
  assumes "b \<le> m"
  shows "py_slice (take m xs) a b = py_slice xs a b"
proof -
  have "py_slice (take m xs) a b = take (b - a) (take (m - a) (drop a xs))"
    by (simp only: py_slice_def drop_take)
  also have "\<dots> = take (min (b - a) (m - a)) (drop a xs)"
    by (simp only: take_take)
  also have "min (b - a) (m - a) = b - a"
    using assms by simp
  finally show ?thesis
    by (simp only: py_slice_def)
qed

lemma record_fields_take:
  assumes "k < length data div RECORD_SIZE"
  shows "record_payload (take (RECORD_SIZE * (length data div RECORD_SIZE)) data) k = record_payload data k"
    and "record_packet_num (take (RECORD_SIZE * (length data div RECORD_SIZE)) data) k = record_packet_num data k"
    and "record_timestamp (take (RECORD_SIZE * (length data div RECORD_SIZE)) data) k = record_timestamp data k"
proof -
  let ?m = "RECORD_SIZE * (length data div RECORD_SIZE)"
  have "Suc k \<le> length data div RECORD_SIZE"
    using assms by simp
  then have "Suc k * RECORD_SIZE \<le> (length data div RECORD_SIZE) * RECORD_SIZE"
    by (rule mult_le_mono1)
  then have inside: "k * RECORD_SIZE + 271 \<le> ?m"
    by (simp add: RECORD_SIZE_def mult.commute)
  have byte: "take ?m data ! (k * RECORD_SIZE + 15) = data ! (k * RECORD_SIZE + 15)"
    using inside by simp
  have "unat (data ! (k * RECORD_SIZE + 15)) \<le> 255"
    using unsigned_less [of "data ! (k * RECORD_SIZE + 15)", where ?'a = nat] by simp
  then have "k * RECORD_SIZE + 16 + unat (data ! (k * RECORD_SIZE + 15)) \<le> ?m"
    using inside by simp
  then show "record_payload (take ?m data) k = record_payload data k"
    unfolding record_payload_def byte by (rule py_slice_take)
  have "k * RECORD_SIZE + 5 \<le> ?m"
    using inside by simp
  then show "record_packet_num (take ?m data) k = record_packet_num data k"
    unfolding record_packet_num_def by (simp only: py_slice_take)
  have "k * RECORD_SIZE + 13 \<le> ?m"
    using inside by simp
  then show "record_timestamp (take ?m data) k = record_timestamp data k"
    unfolding record_timestamp_def by (simp only: py_slice_take)
qed

lemma parse_psd_file_take:
  "parse_psd_file decode (take (RECORD_SIZE * (length data div RECORD_SIZE)) data) =
     parse_psd_file decode data"
proof -
  let ?d = "take (RECORD_SIZE * (length data div RECORD_SIZE)) data"
  let ?n = "length data div RECORD_SIZE"
  have "RECORD_SIZE * ?n \<le> length data"
    by simp
  then have "length ?d = RECORD_SIZE * ?n"
    by simp
  then have n: "length ?d div RECORD_SIZE = ?n"
    by (simp add: RECORD_SIZE_def)
  obtain p where p: "parse_psd_file decode data = Inr p"
    and pe: "map Inr p =
         map (\<lambda>k. parse_ble_packet decode (record_payload data k) (int k + 1)
                     (int (record_packet_num data k)) (int (record_timestamp data k)))
           (filter (\<lambda>k. 4 \<le> length (record_payload data k)) [0..<?n])"
    using parse_psd_file_result [of decode data] by blast
  obtain q where q: "parse_psd_file decode ?d = Inr q"
    and qe: "map Inr q =
         map (\<lambda>k. parse_ble_packet decode (record_payload ?d k) (int k + 1)
                     (int (record_packet_num ?d k)) (int (record_timestamp ?d k)))
           (filter (\<lambda>k. 4 \<le> length (record_payload ?d k)) [0..<?n])"
    using parse_psd_file_result [of decode ?d] unfolding n by blast
  have same: "filter (\<lambda>k. 4 \<le> length (record_payload ?d k)) [0..<?n] =
              filter (\<lambda>k. 4 \<le> length (record_payload data k)) [0..<?n]"
    by (rule filter_cong) (simp_all add: record_fields_take)
  have "map (Inr :: ble_packet \<Rightarrow> py_error + ble_packet) q = map Inr p"
    unfolding qe pe same
    by (rule map_cong) (simp_all add: record_fields_take)
  then have "q = p"
    by (simp add: inj_map_eq_map)
  with p q show ?thesis
    by simp
qed

text \<open>
  C1 (as stated, refuted). A buffer of 542 zero bytes holds two complete records, and
  parsing it yields no packet: both records have the payload length 0, and a record
  whose payload has fewer than 4 bytes is skipped.
\<close>

theorem parse_psd_file_skips_counterexample:
  "parse_psd_file decode_ascii (replicate 542 0) = Inr []"
  by code_simp

text \<open>
  C1 (amended). Parsing a capture buffer never raises. It visits the
  \<open>len(data) // 271\<close> complete records in file order and yields, in that order, one
  packet for each record whose payload has at least 4 bytes: the result of the PDU
  decoder on the record's payload, its index plus one, its packet number and its
  timestamp. So there are at most \<open>len(data) // 271\<close> packets, and exactly that many
  when every record's payload length byte is at least 4; a 270-byte buffer yields none,
  a 542-byte buffer at most two; the bytes after the last complete record do not
  change the result.
\<close>

theorem parse_psd_file_packets:
  "\<exists>pkts. parse_psd_file decode data = Inr pkts
     \<and> map Inr pkts =
         map (\<lambda>k. parse_ble_packet decode (record_payload data k) (int k + 1)
                     (int (record_packet_num data k)) (int (record_timestamp data k)))
           (filter (\<lambda>k. 4 \<le> length (record_payload data k)) [0..<length data div RECORD_SIZE])
     \<and> length pkts \<le> length data div RECORD_SIZE
     \<and> ((\<forall>k < length data div RECORD_SIZE. 4 \<le> unat (data ! (k * RECORD_SIZE + 15)))
          \<longrightarrow> length pkts = length data div RECORD_SIZE)
     \<and> (length data = 270 \<longrightarrow> pkts = [])
     \<and> (length data = 542 \<longrightarrow> length pkts \<le> 2)
     \<and> parse_psd_file decode (take (RECORD_SIZE * (length data div RECORD_SIZE)) data) = Inr pkts"
proof -
  let ?n = "length data div RECORD_SIZE"
  let ?keep = "\<lambda>k. 4 \<le> length (record_payload data k)"
  obtain pkts where run: "parse_psd_file decode data = Inr pkts"
    and each: "map Inr pkts =
         map (\<lambda>k. parse_ble_packet decode (record_payload data k) (int k + 1)
                     (int (record_packet_num data k)) (int (record_timestamp data k)))
           (filter ?keep [0..<?n])"
    using parse_psd_file_result [of decode data] by blast
  have "length (map (Inr :: ble_packet \<Rightarrow> py_error + ble_packet) pkts) = length (filter ?keep [0..<?n])"
    unfolding each by simp
  then have count: "length pkts = length (filter ?keep [0..<?n])"
    by simp
  have "length (filter ?keep [0..<?n]) \<le> length [0..<?n]"
    by (rule length_filter_le)
  with count have bound: "length pkts \<le> ?n"
    by simp
  have full: "length pkts = ?n" if all: "\<forall>k < ?n. 4 \<le> unat (data ! (k * RECORD_SIZE + 15))"
  proof -
    have "filter ?keep [0..<?n] = [0..<?n]"
      using all by (intro filter_True) (simp add: record_payload_length)
    with count show ?thesis
      by simp
  qed
  have small: "pkts = []" if "length data = 270"
    using bound that by (simp add: RECORD_SIZE_def)
  have two: "length pkts \<le> 2" if "length data = 542"
    using bound that by (simp add: RECORD_SIZE_def)
  have "parse_psd_file decode (take (RECORD_SIZE * ?n) data) = Inr pkts"
    using run by (simp only: parse_psd_file_take)
  with run each bound full small two show ?thesis
    by blast
qed

theorem parse_psd_file_packets_witness:
  "length (replicate 271 (4 :: byte)) div RECORD_SIZE = 1
   \<and> 4 \<le> unat (replicate 271 (4 :: byte) ! (0 * RECORD_SIZE + 15))
   \<and> (\<exists>pkts. parse_psd_file decode_ascii (replicate 271 4) = Inr pkts \<and> length pkts = 1)"
proof -
  have h: "\<forall>k < length (replicate 271 (4 :: byte)) div RECORD_SIZE.
       4 \<le> unat (replicate 271 (4 :: byte) ! (k * RECORD_SIZE + 15))"
    by (simp add: RECORD_SIZE_def)
  have n: "length (replicate 271 (4 :: byte)) div RECORD_SIZE = 1"
    by (simp add: RECORD_SIZE_def)
  have z: "4 \<le> unat (replicate 271 (4 :: byte) ! (0 * RECORD_SIZE + 15))"
    by (simp add: RECORD_SIZE_def)
  from parse_psd_file_packets [of decode_ascii "replicate 271 4"] h n z show ?thesis
    by metis
qed

section \<open>Converter, PPI mode: properties\<close>

lemma le_bytes_1: "le_bytes 1 v = [of_nat (v mod 256)]"
  by simp

lemma le_bytes_2: "le_bytes 2 v = [of_nat (v mod 256), of_nat (v div 256 mod 256)]"
proof -
  have "(2::nat) = Suc (Suc 0)"
    by simp
  then show ?thesis
    by (simp only: le_bytes.simps)
qed

lemma le_bytes_4:
  "le_bytes 4 v =
     [of_nat (v mod 256), of_nat (v div 256 mod 256), of_nat (v div 256 div 256 mod 256),
      of_nat (v div 256 div 256 div 256 mod 256)]"
proof -
  have "(4::nat) = Suc (Suc (Suc (Suc 0)))"
    by simp
  then show ?thesis
    by (simp only: le_bytes.simps)
qed

lemma ppi_header_bytes: "ppi_header = Inr [0x00, 0x00, 0x08, 0x00, 0xFB, 0x00, 0x00, 0x00]"
  by (simp add: ppi_header_def pack_le_def le_bytes_1 le_bytes_2 le_bytes_4 DLT_BLUETOOTH_LE_LL_def)

lemma pcap_header_bytes:
  "write_pcap_header [] DLT_PPI =
     Inr [0xd4, 0xc3, 0xb2, 0xa1, 0x02, 0x00, 0x04, 0x00, 0, 0, 0, 0, 0, 0, 0, 0,
          0xff, 0xff, 0x00, 0x00, 0xc0, 0x00, 0x00, 0x00]"
  by (simp add: write_pcap_header_def pack_le_def le_bytes_2 le_bytes_4 DLT_PPI_def
      PCAP_MAGIC_def PCAP_VERSION_MAJOR_def PCAP_VERSION_MINOR_def PCAP_THISZONE_def
      PCAP_SIGFIGS_def PCAP_SNAPLEN_def)

lemma ppi_write_loop_ignores_rssi_channel:
  "ppi_write_loop f base_time ((ts_us, payload, rssi1, channel1) # rest) =
   ppi_write_loop f base_time ((ts_us, payload, rssi2, channel2) # rest)"
  by simp

lemma write_pcap_packet_at_zero:
  assumes "length data < 2 ^ 32"
  shows "write_pcap_packet f 0 data =
           Inr (f @ [0, 0, 0, 0, 0, 0, 0, 0] @ le_bytes 4 (length data) @ le_bytes 4 (length data) @ data)"
proof -
  have "int (length data) < 2 ^ 32"
    using assms by (simp add: of_nat_less_iff [of _ "2 ^ 32", simplified])
  then show ?thesis
    by (simp add: write_pcap_packet_def py_int_of_float_def py_float_mod_def pack_le_def le_bytes_4)
qed

lemma ppi_example_record:
  "ppi_record ([0x00, 0x07, 0x00, 0x00, 0x00, 0, 0, 0, 0, 0, 0, 0, 0, 0x00, 0x00, 0x08,
       0xd6, 0xbe, 0x89, 0x8e, 0x00, 0x00, 0xC8, 0xA5] @ replicate 247 0) 0 =
     Inr [(0, [0xd6, 0xbe, 0x89, 0x8e, 0x00, 0x00, 0xC8, 0xA5], - 129, 37)]"
proof -
  have ts: "py_float_of_int 0 = Inr 0"
    using py_float_of_int_exact [of 0] by simp
  show ?thesis
    by (simp add: ppi_record_def RECORD_SIZE_def extract_payload_def idx_def py_slice_def
        unpack_le_def rssi_of_raw_def ts)
qed

text \<open>
  C9 (the code departs from the claim and from its own docstring). One record with the
  timestamp 0 and the 8-byte payload \<open>D6 BE 89 8E 00 00 C8 A5\<close>, whose RSSI decodes
  to \<open>-129\<close> and whose channel is 37: the output is the 24-byte global header with
  link type 192, the 16-byte packet header (seconds 0, microseconds 0, captured and
  original length 16), the 8-byte metadata header \<open>00 00 08 00 FB 00 00 00\<close> (version,
  flags, header length, link type 251) and the payload. The metadata header carries the
  link type only; RSSI and channel are not written.
\<close>

theorem ppi_record_without_rssi_channel:
  "convert_psd_to_pcap_with_ppi
     ([0x00, 0x07, 0x00, 0x00, 0x00, 0, 0, 0, 0, 0, 0, 0, 0, 0x00, 0x00, 0x08,
       0xd6, 0xbe, 0x89, 0x8e, 0x00, 0x00, 0xC8, 0xA5] @ replicate 247 0) =
   Inr ([0xd4, 0xc3, 0xb2, 0xa1, 0x02, 0x00, 0x04, 0x00, 0, 0, 0, 0, 0, 0, 0, 0,
         0xff, 0xff, 0x00, 0x00, 0xc0, 0x00, 0x00, 0x00] @
        [0, 0, 0, 0, 0, 0, 0, 0, 0x10, 0x00, 0x00, 0x00, 0x10, 0x00, 0x00, 0x00] @
        [0x00, 0x00, 0x08, 0x00, 0xFB, 0x00, 0x00, 0x00] @
        [0xd6, 0xbe, 0x89, 0x8e, 0x00, 0x00, 0xC8, 0xA5])"
proof -
  have n: "[0..<length ([0x00, 0x07, 0x00, 0x00, 0x00, 0, 0, 0, 0, 0, 0, 0, 0, 0x00, 0x00, 0x08,
       0xd6, 0xbe, 0x89, 0x8e, 0x00, 0x00, 0xC8, 0xA5] @ replicate 247 0) div RECORD_SIZE] = [0]"
    by (simp add: RECORD_SIZE_def)
  have len: "length [0x00, 0x00, 0x08, 0x00, 0xFB, 0x00, 0x00, 0x00,
               0xd6, 0xbe, 0x89, 0x8e, 0x00, 0x00, 0xC8, 0xA5 :: byte] < 2 ^ 32"
    by simp
  have rd: "ppi_read_loop ([0x00, 0x07, 0x00, 0x00, 0x00, 0, 0, 0, 0, 0, 0, 0, 0, 0x00, 0x00, 0x08,
       0xd6, 0xbe, 0x89, 0x8e, 0x00, 0x00, 0xC8, 0xA5] @ replicate 247 0) [0] [] =
              Inr [(0, [0xd6, 0xbe, 0x89, 0x8e, 0x00, 0x00, 0xC8, 0xA5], - 129, 37)]"
    by (simp only: ppi_read_loop.simps ppi_example_record sum.case append_Nil)
  show ?thesis
    unfolding convert_psd_to_pcap_with_ppi_def n rd bindE_Inr
    by (simp add: pcap_header_bytes ppi_header_bytes write_pcap_packet_at_zero [OF len] le_bytes_4)
qed

end
